theory Spec2Isabelle
  imports Main
begin

section \<open>Pull request controller: data model\<close>

text \<open>
  The embedding follows \<^verbatim>\<open>internal/api/controller/pullreq/controller.go\<close>.
  The packages \<^verbatim>\<open>types\<close>, \<^verbatim>\<open>types/enum\<close>, \<^verbatim>\<open>usererror\<close>, \<^verbatim>\<open>store\<close> and
  \<^verbatim>\<open>gitrpc\<close> are imported by that file but their sources are not at hand; the
  declarations below take from them exactly the fields, constants and methods the
  controller mentions, with the record layout of section 6 of the specification.

  Identifiers and sequence numbers are Go \<^verbatim>\<open>int64\<close> values. The controller compares
  and copies them and never computes with them, so they are modelled as \<open>int\<close>.
  Record fields carry a prefix (\<open>pr_\<close>, \<open>act_\<close>, \<open>f_\<close>) because several Go structs
  share field names such as \<^verbatim>\<open>ID\<close> and \<^verbatim>\<open>Order\<close>.
\<close>

datatype PullReqState = PullReqStateOpen | PullReqStateClosed | PullReqStateMerged

datatype PullReqActivityKind =
  PullReqActivityKindSystem | PullReqActivityKindComment | PullReqActivityKindCodeComment

datatype PullReqSort = PullReqSortNumber

datatype Order = OrderAsc | OrderDesc

datatype RefType = RefTypeBranch | RefTypeTag

record PullReq =
  pr_ID :: int
  pr_Version :: int
  pr_Number :: int
  pr_CreatedBy :: int
  pr_Created :: int
  pr_Updated :: int
  pr_State :: PullReqState
  pr_SourceRepoID :: int
  pr_SourceBranch :: string
  pr_TargetRepoID :: int
  pr_TargetBranch :: string
  pr_ActivitySeq :: int

text \<open>\<^verbatim>\<open>Deleted\<close> is a pointer in the source: \<open>None\<close> is the nil pointer (not deleted).\<close>

record PullReqActivity =
  act_ID :: int
  act_Version :: int
  act_CreatedBy :: int
  act_Created :: int
  act_Updated :: int
  act_Deleted :: "int option"
  act_ParentID :: "int option"
  act_RepoID :: int
  act_PullReqID :: int
  act_Order :: int
  act_SubOrder :: int
  act_ReplySeq :: int
  act_Kind :: PullReqActivityKind
  act_Payload :: string

record PullReqFilter =
  f_SourceRepoID :: int
  f_SourceBranch :: string
  f_TargetBranch :: string
  f_States :: "PullReqState list"
  f_Size :: int
  f_Sort :: PullReqSort
  f_Order :: Order

record Repository =
  repo_ID :: int
  repo_UID :: string

record Principal =
  principal_ID :: int

record Session =
  session_Principal :: Principal

record ReadParams =
  rp_Repo :: Repository

record GetRefParams =
  grp_ReadParams :: ReadParams
  grp_Name :: string
  grp_Type :: RefType

subsection \<open>Errors\<close>

text \<open>
  A Go \<^verbatim>\<open>map[string]any\<close> literal is kept as the list of its entries, in the order the
  source writes them.
\<close>

datatype any = AnyString string | AnyInt int

text \<open>
  Error values. \<open>BadRequest\<close> is what \<^verbatim>\<open>usererror.BadRequest(message, values...)\<close>
  builds; \<open>ErrNotFound\<close> is \<^verbatim>\<open>gitrpc.ErrNotFound\<close>; \<open>ErrResourceNotFound\<close> is
  \<^verbatim>\<open>store.ErrResourceNotFound\<close>; \<open>ErrConflict\<close> is the store's retryable conflict of
  an optimistic update that lost its race (specification 4.1); \<open>OtherError\<close> is any other
  failure of a collaborator (storage down, network down), with its message.
  \<open>Errorf m e\<close> is \<^verbatim>\<open>fmt.Errorf(m + "%w", e)\<close> for a non-nil \<^verbatim>\<open>e\<close>: a new error that
  wraps \<^verbatim>\<open>e\<close>; \<open>Errorf_nil m\<close> is the same call with a nil error argument.
\<close>

datatype error =
    BadRequest string "(string \<times> any) list"
  | ErrNotFound
  | ErrResourceNotFound
  | ErrConflict
  | OtherError string
  | Errorf string error
  | Errorf_nil string

text \<open>\<^verbatim>\<open>errors.Is\<close>: the target is looked for along the chain of wrapped errors.\<close>

fun errors_Is :: "error \<Rightarrow> error \<Rightarrow> bool" where
  "errors_Is (Errorf m e) target = (Errorf m e = target \<or> errors_Is e target)"
| "errors_Is e target = (e = target)"

text \<open>
  Modelled from the spec: the error taxonomy of section 7, which the absent package
  \<^verbatim>\<open>usererror\<close> and the API layer realise. A \<^verbatim>\<open>usererror.BadRequest\<close> is the
  client-facing rejection with a human-readable message (\<open>Validation\<close>); the two
  not-found sentinels are \<open>NotFound\<close>; the optimistic-update conflict is \<open>Conflict\<close>;
  a failure wrapped by \<^verbatim>\<open>fmt.Errorf\<close> or coming from a collaborator is propagated as
  \<open>Internal\<close>.
\<close>

datatype error_class = Validation | NotFound | Conflict | Authorization | Internal

fun class_of :: "error \<Rightarrow> error_class" where
  "class_of (BadRequest m vs) = Validation"
| "class_of ErrNotFound = NotFound"
| "class_of ErrResourceNotFound = NotFound"
| "class_of ErrConflict = Conflict"
| "class_of (OtherError m) = Internal"
| "class_of (Errorf m e) = Internal"
| "class_of (Errorf_nil m) = Internal"

section \<open>The controller and its collaborators\<close>

text \<open>
  The Go \<^verbatim>\<open>Controller\<close> struct holds its collaborators as interface values. The
  model keeps one field per interface method that \<^verbatim>\<open>controller.go\<close> calls. A method
  is a function of the state of the outside world (\<open>'st\<close>: the database and the git
  service), returning its Go results and the new state, so that a method can do
  anything an implementation of the interface could do to that state.

  A Go result pair \<^verbatim>\<open>(value, err)\<close> is a sum (\<open>Inl\<close> the error) where the controller
  only looks at the value after checking \<^verbatim>\<open>err == nil\<close>. \<^verbatim>\<open>Find\<close> returns both
  components, since the controller tests both \<^verbatim>\<open>err != nil\<close> and \<^verbatim>\<open>comment == nil\<close>.
  \<^verbatim>\<open>GetRef\<close> returns only its error: the controller discards the ref.

  \<^verbatim>\<open>UpdateActivitySeq\<close>, \<^verbatim>\<open>UpdateReplySeq\<close> and \<^verbatim>\<open>Create\<close> are handed a pointer
  to an object of the caller (\<^verbatim>\<open>pr\<close>, \<^verbatim>\<open>parent\<close>, \<^verbatim>\<open>act\<close>) and may write through
  it, as a \<^verbatim>\<open>Create\<close> does that fills in the identifier of the new row. Each of the
  three returns, next to its Go results, that object as the call leaves it. The other
  methods are handed an identifier or a literal built for the call.
\<close>

record 'st Controller =
  pullreqStore_UpdateActivitySeq ::
    "'st \<Rightarrow> PullReq \<Rightarrow> ((error + PullReq) \<times> PullReq) \<times> 'st"
  pullreqStore_List :: "'st \<Rightarrow> int \<Rightarrow> PullReqFilter \<Rightarrow> (error + PullReq list) \<times> 'st"
  activityStore_Find :: "'st \<Rightarrow> int \<Rightarrow> (PullReqActivity option \<times> error option) \<times> 'st"
  activityStore_Create ::
    "'st \<Rightarrow> PullReqActivity \<Rightarrow> (error option \<times> PullReqActivity) \<times> 'st"
  activityStore_UpdateReplySeq ::
    "'st \<Rightarrow> PullReqActivity \<Rightarrow> ((error + PullReqActivity) \<times> PullReqActivity) \<times> 'st"
  gitRPCClient_GetRef :: "'st \<Rightarrow> GetRefParams \<Rightarrow> error option \<times> 'st"

text \<open>
  \<^verbatim>\<open>repoctrl.CreateRPCReadParams\<close> builds the read parameters of a call from the
  repository; the parameters are kept as the repository they are built from.
\<close>

definition CreateRPCReadParams :: "Repository \<Rightarrow> ReadParams" where
  "CreateRPCReadParams repo = \<lparr>rp_Repo = repo\<rparr>"

subsection \<open>\<^verbatim>\<open>verifyBranchExistence\<close>\<close>

definition verifyBranchExistence ::
  "'st Controller \<Rightarrow> 'st \<Rightarrow> Repository \<Rightarrow> string \<Rightarrow> error option \<times> 'st" where
  "verifyBranchExistence c st repo branch =
     (if branch = [] then (Some (BadRequest ''branch name can't be empty'' []), st)
      else
        (case gitRPCClient_GetRef c st
                \<lparr>grp_ReadParams = CreateRPCReadParams repo,
                 grp_Name = branch, grp_Type = RefTypeBranch\<rparr> of
           (None, st') \<Rightarrow> (None, st')
         | (Some err, st') \<Rightarrow>
             if errors_Is err ErrNotFound then
               (Some (BadRequest
                  (''branch '' @ branch @ '' does not exist in the repository '' @ repo_UID repo)
                  []), st')
             else
               (Some (Errorf
                  (''failed to check existence of the branch '' @ branch
                    @ '' in the repository '' @ repo_UID repo @ '': '') err), st')))"

subsection \<open>\<^verbatim>\<open>getCommentCheckEditAccess\<close>\<close>

definition getCommentCheckEditAccess ::
  "'st Controller \<Rightarrow> 'st \<Rightarrow> Session \<Rightarrow> PullReq \<Rightarrow> int \<Rightarrow> (error + PullReqActivity) \<times> 'st" where
  "getCommentCheckEditAccess c st session pr commentID =
     (if commentID \<le> 0 then
        (Inl (BadRequest ''A valid comment ID must be provided.'' []), st)
      else
        (case activityStore_Find c st commentID of
           ((_, Some err), st') \<Rightarrow> (Inl (Errorf ''failed to find comment by ID: '' err), st')
         | ((None, None), st') \<Rightarrow> (Inl (Errorf_nil ''failed to find comment by ID: ''), st')
         | ((Some comment, None), st') \<Rightarrow>
             if act_Deleted comment \<noteq> None \<or> act_RepoID comment \<noteq> pr_TargetRepoID pr
                \<or> act_PullReqID comment \<noteq> pr_ID pr then
               (Inl ErrResourceNotFound, st')
             else if act_Kind comment = PullReqActivityKindSystem then
               (Inl (BadRequest ''Can't update a comment created by the system.'' []), st')
             else if act_CreatedBy comment \<noteq> principal_ID (session_Principal session) then
               (Inl (BadRequest ''Only own comments may be updated.'' []), st')
             else (Inr comment, st')))"

subsection \<open>\<^verbatim>\<open>writeActivity\<close> and \<^verbatim>\<open>writeReplyActivity\<close>\<close>

text \<open>
  Both helpers write through the pointers they receive (\<^verbatim>\<open>*pr = *prUpd\<close>,
  \<^verbatim>\<open>act.Order = ...\<close>) and hand the same pointers to the store. The model returns,
  next to the Go error, the caller's two objects as they are when the helper returns:
  \<open>pr0\<close> (\<open>parent0\<close>) is the caller's object as the sequence bump left it, which
  \<^verbatim>\<open>*pr = *prUpd\<close> then overwrites; \<open>act2\<close> is the activity as \<^verbatim>\<open>Create\<close> left it.
  The callers pass two distinct objects (the parent is loaded from the store, the
  activity is freshly built), so \<^verbatim>\<open>parent\<close> and \<^verbatim>\<open>act\<close> are separate values.
\<close>

definition writeActivity ::
  "'st Controller \<Rightarrow> 'st \<Rightarrow> PullReq \<Rightarrow> PullReqActivity
     \<Rightarrow> (error option \<times> PullReq \<times> PullReqActivity) \<times> 'st" where
  "writeActivity c st pr act =
     (case pullreqStore_UpdateActivitySeq c st pr of
        ((Inl err, pr0), st1) \<Rightarrow>
          ((Some (Errorf ''failed to get pull request activity number: '' err), pr0, act), st1)
      | ((Inr prUpd, pr0), st1) \<Rightarrow>
          (let pr' = prUpd;
               act' = act\<lparr>act_Order := pr_ActivitySeq prUpd\<rparr>
           in case activityStore_Create c st1 act' of
                ((Some err, act2), st2) \<Rightarrow>
                  ((Some (Errorf ''failed to create pull request activity: '' err), pr', act2), st2)
              | ((None, act2), st2) \<Rightarrow> ((None, pr', act2), st2)))"

definition writeReplyActivity ::
  "'st Controller \<Rightarrow> 'st \<Rightarrow> PullReqActivity \<Rightarrow> PullReqActivity
     \<Rightarrow> (error option \<times> PullReqActivity \<times> PullReqActivity) \<times> 'st" where
  "writeReplyActivity c st parent act =
     (case activityStore_UpdateReplySeq c st parent of
        ((Inl err, parent0), st1) \<Rightarrow>
          ((Some (Errorf ''failed to get pull request activity number: '' err), parent0, act), st1)
      | ((Inr parentUpd, parent0), st1) \<Rightarrow>
          (let parent' = parentUpd;
               act' = act\<lparr>act_Order := act_Order parentUpd,
                          act_SubOrder := act_ReplySeq parentUpd\<rparr>
           in case activityStore_Create c st1 act' of
                ((Some err, act2), st2) \<Rightarrow>
                  ((Some (Errorf ''failed to create pull request activity: '' err), parent', act2),
                   st2)
              | ((None, act2), st2) \<Rightarrow> ((None, parent', act2), st2)))"

subsection \<open>\<^verbatim>\<open>checkIfAlreadyExists\<close>\<close>

definition checkIfAlreadyExists ::
  "'st Controller \<Rightarrow> 'st \<Rightarrow> int \<Rightarrow> int \<Rightarrow> string \<Rightarrow> string \<Rightarrow> error option \<times> 'st" where
  "checkIfAlreadyExists c st targetRepoID sourceRepoID targetBranch sourceBranch =
     (case pullreqStore_List c st targetRepoID
             \<lparr>f_SourceRepoID = sourceRepoID,
              f_SourceBranch = sourceBranch,
              f_TargetBranch = targetBranch,
              f_States = [PullReqStateOpen],
              f_Size = 1,
              f_Sort = PullReqSortNumber,
              f_Order = OrderAsc\<rparr> of
        (Inl err, st') \<Rightarrow> (Some (Errorf ''failed to get existing pull requests: '' err), st')
      | (Inr existing, st') \<Rightarrow>
          if length existing > 0 then
            (Some (BadRequest
               ''a pull request for this target and source branch already exists''
               [(''type'', AnyString ''pr already exists''),
                (''number'', AnyInt (pr_Number (existing ! 0)))]), st')
          else (None, st'))"

section \<open>The stores and the git service\<close>

text \<open>
  The implementations of \<^verbatim>\<open>store.PullReqStore\<close>, \<^verbatim>\<open>store.PullReqActivityStore\<close>
  and \<^verbatim>\<open>gitrpc.Interface\<close> are not among the sources at hand. They are modelled from
  sections 4.1, 4.2 and 4.5 of the specification, over one state of the outside world:
  the rows of the two tables, the branches that exist, and a script of faults.

  Every call of a collaborator takes the next entry of the script: \<open>Some e\<close> makes the
  call fail with \<open>e\<close> and leave the rows as they are (a lost optimistic race that
  exhausted its retries, storage or network down); \<open>None\<close>, or an empty script, lets
  the call run. Quantifying over the script quantifies over every pattern of failures.
  Each call is one atomic step, as the specification has it.
\<close>

record store =
  pullreqs :: "PullReq list"
  activities :: "PullReqActivity list"
  branches :: "(string \<times> string) list"
  faults :: "error option list"

definition next_fault :: "store \<Rightarrow> error option \<times> store" where
  "next_fault st =
     (case faults st of [] \<Rightarrow> (None, st) | f # fs \<Rightarrow> (f, st\<lparr>faults := fs\<rparr>))"

text \<open>
  A table is the list of its rows, read by key: \<open>find\<close> reads the first row with the
  key, \<open>write_back\<close> puts the updated row in the place of the row that was read.
\<close>

fun write_back :: "('a \<Rightarrow> bool) \<Rightarrow> 'a \<Rightarrow> 'a list \<Rightarrow> 'a list" where
  "write_back P y [] = []"
| "write_back P y (x # xs) = (if P x then y # xs else x # write_back P y xs)"

text \<open>
  Modelled from the spec: \<^verbatim>\<open>PullReqStore.UpdateActivitySeq\<close> (4.1), absent from the
  sources. It reads the stored row of the pull request, increments its
  \<^verbatim>\<open>ActivitySeq\<close> (and its version) by one, writes the row back and returns the updated
  record, atomically; it fails with the injected fault, or with not-found when the
  pull request has no row. The counter is the specification's monotonic counter, an
  unbounded integer; a Go \<^verbatim>\<open>int64\<close> counter at its largest value is outside the model.
\<close>

definition PullReqStore_UpdateActivitySeq :: "store \<Rightarrow> PullReq \<Rightarrow> (error + PullReq) \<times> store" where
  "PullReqStore_UpdateActivitySeq st pr =
     (case next_fault st of
        (Some e, st') \<Rightarrow> (Inl e, st')
      | (None, st') \<Rightarrow>
          (case find (\<lambda>r. pr_ID r = pr_ID pr) (pullreqs st') of
             None \<Rightarrow> (Inl ErrResourceNotFound, st')
           | Some row \<Rightarrow>
               (let upd = row\<lparr>pr_ActivitySeq := pr_ActivitySeq row + 1,
                              pr_Version := pr_Version row + 1\<rparr>
                in (Inr upd,
                    st'\<lparr>pullreqs :=
                          write_back (\<lambda>r. pr_ID r = pr_ID pr) upd (pullreqs st')\<rparr>))))"

text \<open>
  Modelled from the spec: \<^verbatim>\<open>PullReqStore.List\<close> (4.1), absent from the sources:
  read-only, filtered by target repository, source repository, branches and states,
  sorted by the sort field in the given direction, cut to the page size.
\<close>

definition matches :: "int \<Rightarrow> PullReqFilter \<Rightarrow> PullReq \<Rightarrow> bool" where
  "matches targetRepoID f r \<longleftrightarrow>
     pr_TargetRepoID r = targetRepoID \<and> pr_SourceRepoID r = f_SourceRepoID f
     \<and> pr_SourceBranch r = f_SourceBranch f \<and> pr_TargetBranch r = f_TargetBranch f
     \<and> pr_State r \<in> set (f_States f)"

definition sorted_by :: "PullReqSort \<Rightarrow> Order \<Rightarrow> PullReq list \<Rightarrow> PullReq list" where
  "sorted_by srt ord rows =
     (let asc = (case srt of PullReqSortNumber \<Rightarrow> sort_key pr_Number rows)
      in case ord of OrderAsc \<Rightarrow> asc | OrderDesc \<Rightarrow> rev asc)"

definition PullReqStore_List ::
  "store \<Rightarrow> int \<Rightarrow> PullReqFilter \<Rightarrow> (error + PullReq list) \<times> store" where
  "PullReqStore_List st targetRepoID f =
     (case next_fault st of
        (Some e, st') \<Rightarrow> (Inl e, st')
      | (None, st') \<Rightarrow>
          (Inr (take (nat (f_Size f))
                  (sorted_by (f_Sort f) (f_Order f)
                     (filter (matches targetRepoID f) (pullreqs st')))), st'))"

text \<open>
  Modelled from the spec: \<^verbatim>\<open>PullReqActivityStore.Find\<close> (4.2), absent from the
  sources: read-only; a missing row is the not-found error.
\<close>

definition ActivityStore_Find ::
  "store \<Rightarrow> int \<Rightarrow> (PullReqActivity option \<times> error option) \<times> store" where
  "ActivityStore_Find st aid =
     (case next_fault st of
        (Some e, st') \<Rightarrow> ((None, Some e), st')
      | (None, st') \<Rightarrow>
          (case find (\<lambda>a. act_ID a = aid) (activities st') of
             None \<Rightarrow> ((None, Some ErrResourceNotFound), st')
           | Some a \<Rightarrow> ((Some a, None), st')))"

text \<open>
  Modelled from the spec: \<^verbatim>\<open>PullReqActivityStore.Create\<close> (4.2), absent from the
  sources: persists a new activity row with the caller-assigned Order and SubOrder.
\<close>

definition ActivityStore_Create :: "store \<Rightarrow> PullReqActivity \<Rightarrow> error option \<times> store" where
  "ActivityStore_Create st act =
     (case next_fault st of
        (Some e, st') \<Rightarrow> (Some e, st')
      | (None, st') \<Rightarrow> (None, st'\<lparr>activities := activities st' @ [act]\<rparr>))"

text \<open>
  Modelled from the spec: \<^verbatim>\<open>PullReqActivityStore.UpdateReplySeq\<close> (4.2), absent from
  the sources: the same conditional increment as \<^verbatim>\<open>UpdateActivitySeq\<close>, on the
  \<^verbatim>\<open>ReplySeq\<close> counter of one parent activity; returns the updated parent.
\<close>

definition ActivityStore_UpdateReplySeq ::
  "store \<Rightarrow> PullReqActivity \<Rightarrow> (error + PullReqActivity) \<times> store" where
  "ActivityStore_UpdateReplySeq st parent =
     (case next_fault st of
        (Some e, st') \<Rightarrow> (Inl e, st')
      | (None, st') \<Rightarrow>
          (case find (\<lambda>a. act_ID a = act_ID parent) (activities st') of
             None \<Rightarrow> (Inl ErrResourceNotFound, st')
           | Some row \<Rightarrow>
               (let upd = row\<lparr>act_ReplySeq := act_ReplySeq row + 1,
                              act_Version := act_Version row + 1\<rparr>
                in (Inr upd,
                    st'\<lparr>activities :=
                          write_back (\<lambda>a. act_ID a = act_ID parent) upd (activities st')\<rparr>))))"

text \<open>
  Modelled from the spec: the ref resolver (4.5), absent from the sources: a branch
  of a repository resolves, an absent name is \<^verbatim>\<open>gitrpc.ErrNotFound\<close>, an injected
  fault is the transient failure.
\<close>

definition GetRef :: "store \<Rightarrow> GetRefParams \<Rightarrow> error option \<times> store" where
  "GetRef st p =
     (case next_fault st of
        (Some e, st') \<Rightarrow> (Some e, st')
      | (None, st') \<Rightarrow>
          if grp_Type p = RefTypeBranch
             \<and> (repo_UID (rp_Repo (grp_ReadParams p)), grp_Name p) \<in> set (branches st')
          then (None, st') else (Some ErrNotFound, st'))"

text \<open>
  The controller wired to these collaborators, as \<^verbatim>\<open>NewController\<close> wires it. The
  stores modelled from the specification return their results and leave the caller's
  object as it is: \<open>leaving\<close> hands the object back unchanged.
\<close>

definition leaving :: "('st \<Rightarrow> 'a \<Rightarrow> 'r \<times> 'st) \<Rightarrow> 'st \<Rightarrow> 'a \<Rightarrow> ('r \<times> 'a) \<times> 'st" where
  "leaving f st x = (case f st x of (r, st') \<Rightarrow> ((r, x), st'))"

definition controller :: "store Controller" where
  "controller =
     \<lparr>pullreqStore_UpdateActivitySeq = leaving PullReqStore_UpdateActivitySeq,
      pullreqStore_List = PullReqStore_List,
      activityStore_Find = ActivityStore_Find,
      activityStore_Create = leaving ActivityStore_Create,
      activityStore_UpdateReplySeq = leaving ActivityStore_UpdateReplySeq,
      gitRPCClient_GetRef = GetRef\<rparr>"

text \<open>
  A store of another make, for comparison: its \<^verbatim>\<open>Create\<close> gives the new row the next
  free identifier and writes it into the caller's activity, as a database-backed store
  does on insert.
\<close>

definition next_ID :: "store \<Rightarrow> int" where
  "next_ID st = 1 + fold max (map act_ID (activities st)) 0"

definition ActivityStore_Create_ID ::
  "store \<Rightarrow> PullReqActivity \<Rightarrow> (error option \<times> PullReqActivity) \<times> store" where
  "ActivityStore_Create_ID st act =
     (case ActivityStore_Create st (act\<lparr>act_ID := next_ID st\<rparr>) of
        (Some e, st') \<Rightarrow> ((Some e, act), st')
      | (None, st') \<Rightarrow> ((None, act\<lparr>act_ID := next_ID st\<rparr>), st'))"

definition controller_ID :: "store Controller" where
  "controller_ID = controller\<lparr>activityStore_Create := ActivityStore_Create_ID\<rparr>"

text \<open>The stored counters, read by key: the first row with the identifier.\<close>

definition activitySeq :: "store \<Rightarrow> int \<Rightarrow> int option" where
  "activitySeq st p = map_option pr_ActivitySeq (find (\<lambda>r. pr_ID r = p) (pullreqs st))"

definition replySeq :: "store \<Rightarrow> int \<Rightarrow> int option" where
  "replySeq st q = map_option act_ReplySeq (find (\<lambda>a. act_ID a = q) (activities st))"

section \<open>Concurrent calls\<close>

text \<open>
  Controller instances share no memory; they meet in the store only, one atomic store
  call at a time. A call of \<^verbatim>\<open>writeActivity\<close> or \<^verbatim>\<open>writeReplyActivity\<close> makes two
  store calls, and calls of other instances may run between the two. A \<open>task\<close> is
  such a call in progress, with its own copies of the caller's objects: \<open>Entered\<close>
  before the sequence bump, \<open>Bumped\<close> between the bump and the row write,
  \<open>Returned\<close> after the return.

  \<open>step\<close> runs a task up to its next store call included, and it runs the helper
  itself: the first step is the helper with the row write put off (\<open>postponing\<close>: the
  write answers nil and touches nothing), the second step is the helper with the bump
  already answered (\<open>resuming\<close>: the bump hands back the record the task holds and
  touches nothing), so that the helper assigns the same numbers again and makes its row
  write. The first step reports the number the helper assigned to the activity.
\<close>

datatype call =
    WriteActivity PullReq PullReqActivity
  | WriteReplyActivity PullReqActivity PullReqActivity

datatype task = Entered call | Bumped call | Returned "error option" call

datatype event =
    OrderAssigned int int
  | SubOrderAssigned int int int

definition postponing :: "'st Controller \<Rightarrow> 'st Controller" where
  "postponing c = c\<lparr>activityStore_Create := (\<lambda>st act. ((None, act), st))\<rparr>"

definition resuming :: "'st Controller \<Rightarrow> 'st Controller" where
  "resuming c =
     c\<lparr>pullreqStore_UpdateActivitySeq := (\<lambda>st pr. ((Inr pr, pr), st)),
       activityStore_UpdateReplySeq := (\<lambda>st parent. ((Inr parent, parent), st))\<rparr>"

fun step :: "'st Controller \<Rightarrow> 'st \<Rightarrow> task \<Rightarrow> (task \<times> event list) \<times> 'st" where
  "step c st (Entered (WriteActivity pr act)) =
     (case writeActivity (postponing c) st pr act of
        ((Some err, pr', act'), st1) \<Rightarrow>
          ((Returned (Some err) (WriteActivity pr' act'), []), st1)
      | ((None, pr', act'), st1) \<Rightarrow>
          ((Bumped (WriteActivity pr' act'),
            [OrderAssigned (pr_ID pr) (act_Order act')]), st1))"
| "step c st (Entered (WriteReplyActivity parent act)) =
     (case writeReplyActivity (postponing c) st parent act of
        ((Some err, parent', act'), st1) \<Rightarrow>
          ((Returned (Some err) (WriteReplyActivity parent' act'), []), st1)
      | ((None, parent', act'), st1) \<Rightarrow>
          ((Bumped (WriteReplyActivity parent' act'),
            [SubOrderAssigned (act_ID parent) (act_Order act') (act_SubOrder act')]), st1))"
| "step c st (Bumped (WriteActivity pr act)) =
     (case writeActivity (resuming c) st pr act of
        ((err, pr', act'), st2) \<Rightarrow> ((Returned err (WriteActivity pr' act'), []), st2))"
| "step c st (Bumped (WriteReplyActivity parent act)) =
     (case writeReplyActivity (resuming c) st parent act of
        ((err, parent', act'), st2) \<Rightarrow>
          ((Returned err (WriteReplyActivity parent' act'), []), st2))"
| "step c st (Returned err k) = ((Returned err k, []), st)"

text \<open>
  A schedule is the list of the tasks' indices in the order their store calls are
  served. \<open>run\<close> serves a schedule and returns the final state, the tasks and the
  numbers assigned, in the order of assignment.
\<close>

fun run :: "'st Controller \<Rightarrow> nat list \<Rightarrow> 'st \<Rightarrow> task list \<Rightarrow> 'st \<times> task list \<times> event list" where
  "run c [] st ts = (st, ts, [])"
| "run c (i # sched) st ts =
     (if i < length ts then
        (case step c st (ts ! i) of
           ((t', evs), st') \<Rightarrow>
             (case run c sched st' (ts[i := t']) of
                (st'', ts'', log) \<Rightarrow> (st'', ts'', evs @ log)))
      else run c sched st ts)"

definition assigned :: "'st Controller \<Rightarrow> nat list \<Rightarrow> 'st \<Rightarrow> task list \<Rightarrow> event list" where
  "assigned c sched st ts = snd (snd (run c sched st ts))"

definition final_tasks :: "'st Controller \<Rightarrow> nat list \<Rightarrow> 'st \<Rightarrow> task list \<Rightarrow> task list" where
  "final_tasks c sched st ts = fst (snd (run c sched st ts))"

definition final_state :: "'st Controller \<Rightarrow> nat list \<Rightarrow> 'st \<Rightarrow> task list \<Rightarrow> 'st" where
  "final_state c sched st ts = fst (run c sched st ts)"

fun order_of :: "int \<Rightarrow> event \<Rightarrow> int list" where
  "order_of p (OrderAssigned p' n) = (if p' = p then [n] else [])"
| "order_of p (SubOrderAssigned q n m) = []"

fun suborder_of :: "int \<Rightarrow> event \<Rightarrow> int list" where
  "suborder_of q (OrderAssigned p n) = []"
| "suborder_of q (SubOrderAssigned q' n m) = (if q' = q then [m] else [])"

text \<open>
  The Order values assigned to activities of pull request \<open>p\<close>, and the SubOrder values
  assigned to replies under parent \<open>q\<close>, in the order of assignment.
\<close>

definition orders_of :: "int \<Rightarrow> event list \<Rightarrow> int list" where
  "orders_of p log = concat (map (order_of p) log)"

definition suborders_of :: "int \<Rightarrow> event list \<Rightarrow> int list" where
  "suborders_of q log = concat (map (suborder_of q) log)"

text \<open>
  The rows persisted: the Order values of the top-level activities of pull request \<open>p\<close>
  and the SubOrder values of the replies under parent \<open>q\<close>, in row order.
\<close>

definition top_level_orders :: "store \<Rightarrow> int \<Rightarrow> int list" where
  "top_level_orders st p =
     map act_Order (filter (\<lambda>a. act_PullReqID a = p \<and> act_ParentID a = None) (activities st))"

definition reply_suborders :: "store \<Rightarrow> int \<Rightarrow> int list" where
  "reply_suborders st q =
     map act_SubOrder (filter (\<lambda>a. act_ParentID a = Some q) (activities st))"

text \<open>
  The calls the operations of the controller make (the operations themselves are not
  among the sources at hand; specification 4.4): \<^verbatim>\<open>CreateComment\<close> writes, for a pull
  request, an activity of that pull request without parent; \<^verbatim>\<open>ReplyToComment\<close> writes,
  under a parent, an activity whose parent it is. \<open>entered\<close> holds of such a call that
  has not yet made its first store call.
\<close>

fun well_formed :: "call \<Rightarrow> bool" where
  "well_formed (WriteActivity pr act) \<longleftrightarrow>
     act_PullReqID act = pr_ID pr \<and> act_ParentID act = None"
| "well_formed (WriteReplyActivity parent act) \<longleftrightarrow>
     act_ParentID act = Some (act_ID parent)"

fun entered :: "task \<Rightarrow> bool" where
  "entered (Entered k) \<longleftrightarrow> well_formed k"
| "entered (Bumped k) \<longleftrightarrow> False"
| "entered (Returned err k) \<longleftrightarrow> False"

text \<open>
  Between its two store calls a task holds the number it was assigned and has not yet
  written: the counter value of the record the bump returned, which the second step
  writes. The invariant of a counter and its rows, for the tasks in progress: the
  numbers of the rows are pairwise distinct and at most the counter, and so are the
  numbers held by the tasks, which are held by one task each and are not yet in a row.
\<close>

fun in_flight :: "task \<Rightarrow> bool" where
  "in_flight (Entered k) \<longleftrightarrow> well_formed k"
| "in_flight (Bumped k) \<longleftrightarrow> well_formed k"
| "in_flight (Returned err k) \<longleftrightarrow> True"

fun held_order :: "int \<Rightarrow> task \<Rightarrow> int option" where
  "held_order p (Bumped (WriteActivity pr act)) =
     (if pr_ID pr = p then Some (pr_ActivitySeq pr) else None)"
| "held_order p t = None"

fun held_suborder :: "int \<Rightarrow> task \<Rightarrow> int option" where
  "held_suborder q (Bumped (WriteReplyActivity parent act)) =
     (if act_ID parent = q then Some (act_ReplySeq parent) else None)"
| "held_suborder q t = None"

definition rows_inv :: "int option \<Rightarrow> int list \<Rightarrow> (task \<Rightarrow> int option) \<Rightarrow> task list \<Rightarrow> bool" where
  "rows_inv cnt rows held ts \<longleftrightarrow>
     (\<exists>s. cnt = Some s \<and> distinct rows \<and> (\<forall>n\<in>set rows. n \<le> s)
          \<and> (\<forall>i<length ts. in_flight (ts ! i))
          \<and> (\<forall>i<length ts. \<forall>n. held (ts ! i) = Some n \<longrightarrow> n \<le> s \<and> n \<notin> set rows)
          \<and> (\<forall>i<length ts. \<forall>j<length ts. \<forall>n.
                held (ts ! i) = Some n \<longrightarrow> held (ts ! j) = Some n \<longrightarrow> i = j))"

text \<open>The open pull requests the duplicate check is about.\<close>

definition open_duplicates :: "store \<Rightarrow> int \<Rightarrow> int \<Rightarrow> string \<Rightarrow> string \<Rightarrow> PullReq list" where
  "open_duplicates st targetRepoID sourceRepoID targetBranch sourceBranch =
     filter (\<lambda>r. pr_State r = PullReqStateOpen \<and> pr_TargetRepoID r = targetRepoID
                 \<and> pr_SourceRepoID r = sourceRepoID \<and> pr_SourceBranch r = sourceBranch
                 \<and> pr_TargetBranch r = targetBranch) (pullreqs st)"

section \<open>A small scenario\<close>

text \<open>
  One repository with the branches \<^verbatim>\<open>main\<close> and \<^verbatim>\<open>feature\<close>, one open pull request
  (feature into main, number 1, activity counter at 2) with two activities: a comment
  by principal 7 and a system entry. \<open>noteA\<close> and \<open>noteB\<close> are two new comments for
  the pull request, \<open>replyA\<close> and \<open>replyB\<close> two new replies to the comment, as two
  principals submit them at the same time. \<open>store_dups\<close> holds four pull requests:
  numbers 4 and 2 open for the same branches, number 1 closed, number 3 from another
  branch. The closed statements below evaluate the controller on these.
\<close>

definition repo1 :: Repository where
  "repo1 = \<lparr>repo_ID = 10, repo_UID = ''r1''\<rparr>"

definition pr1 :: PullReq where
  "pr1 = \<lparr>pr_ID = 1, pr_Version = 0, pr_Number = 1, pr_CreatedBy = 7, pr_Created = 0,
          pr_Updated = 0, pr_State = PullReqStateOpen, pr_SourceRepoID = 10,
          pr_SourceBranch = ''feature'', pr_TargetRepoID = 10, pr_TargetBranch = ''main'',
          pr_ActivitySeq = 2\<rparr>"

definition comment5 :: PullReqActivity where
  "comment5 = \<lparr>act_ID = 5, act_Version = 0, act_CreatedBy = 7, act_Created = 0,
               act_Updated = 0, act_Deleted = None, act_ParentID = None, act_RepoID = 10,
               act_PullReqID = 1, act_Order = 1, act_SubOrder = 0, act_ReplySeq = 0,
               act_Kind = PullReqActivityKindComment, act_Payload = ''looks good''\<rparr>"

definition system6 :: PullReqActivity where
  "system6 = comment5\<lparr>act_ID := 6, act_Order := 2, act_Kind := PullReqActivityKindSystem,
                       act_Payload := ''closed''\<rparr>"

definition store0 :: store where
  "store0 = \<lparr>pullreqs = [pr1], activities = [comment5, system6],
             branches = [(''r1'', ''main''), (''r1'', ''feature'')], faults = []\<rparr>"

definition noteA :: PullReqActivity where
  "noteA = \<lparr>act_ID = 0, act_Version = 0, act_CreatedBy = 7, act_Created = 0,
            act_Updated = 0, act_Deleted = None, act_ParentID = None, act_RepoID = 10,
            act_PullReqID = 1, act_Order = 0, act_SubOrder = 0, act_ReplySeq = 0,
            act_Kind = PullReqActivityKindComment, act_Payload = ''A''\<rparr>"

definition noteB :: PullReqActivity where
  "noteB = noteA\<lparr>act_CreatedBy := 8, act_Payload := ''B''\<rparr>"

definition replyA :: PullReqActivity where
  "replyA = noteA\<lparr>act_ParentID := Some 5\<rparr>"

definition replyB :: PullReqActivity where
  "replyB = noteB\<lparr>act_ParentID := Some 5\<rparr>"

definition session7 :: Session where
  "session7 = \<lparr>session_Principal = \<lparr>principal_ID = 7\<rparr>\<rparr>"

definition session8 :: Session where
  "session8 = \<lparr>session_Principal = \<lparr>principal_ID = 8\<rparr>\<rparr>"

definition store_dups :: store where
  "store_dups = store0\<lparr>pullreqs := [pr1\<lparr>pr_ID := 4, pr_Number := 4\<rparr>,
                                     pr1\<lparr>pr_ID := 2, pr_Number := 2\<rparr>,
                                     pr1\<lparr>pr_State := PullReqStateClosed\<rparr>,
                                     pr1\<lparr>pr_ID := 3, pr_Number := 3,
                                         pr_SourceBranch := ''other''\<rparr>]\<rparr>"

section \<open>Properties\<close>

lemmas scenario_defs = repo1_def pr1_def comment5_def system6_def store0_def session7_def
  session8_def noteA_def noteB_def replyA_def replyB_def store_dups_def

lemmas store_defs = controller_def leaving_def next_fault_def PullReqStore_UpdateActivitySeq_def
  PullReqStore_List_def ActivityStore_Find_def ActivityStore_Create_def
  ActivityStore_UpdateReplySeq_def GetRef_def CreateRPCReadParams_def

lemmas eval_defs = assigned_def final_state_def orders_of_def suborders_of_def activitySeq_def
  replySeq_def writeActivity_def writeReplyActivity_def postponing_def resuming_def Let_def

subsection \<open>The stores\<close>

text \<open>
  What each store call does to the two counters and to the rows. A failed call leaves
  the rows as they are; a successful sequence bump moves exactly one counter up by one.
\<close>

lemma find_write_back_same:
  "P y \<Longrightarrow> find P (write_back P y xs) = map_option (\<lambda>_. y) (find P xs)"
  by (induction xs) auto

lemma find_write_back_other:
  "\<forall>x. P x \<longrightarrow> \<not> Q x \<Longrightarrow> \<not> Q y \<Longrightarrow> find Q (write_back P y xs) = find Q xs"
  by (induction xs) auto

lemma map_filter_write_back:
  "find P xs = Some x \<Longrightarrow> Q y = Q x \<Longrightarrow> g y = g x \<Longrightarrow>
   map g (filter Q (write_back P y xs)) = map g (filter Q xs)"
  by (induction xs) (auto split: if_splits)

lemma find_append_Some: "find P xs = Some x \<Longrightarrow> find P (xs @ ys) = Some x"
  by (induction xs) (auto split: if_splits)

lemma find_pr_ID: "find (\<lambda>r. pr_ID r = p) xs = Some row \<Longrightarrow> pr_ID row = p"
  by (induction xs) (auto split: if_splits)

lemma find_act_ID: "find (\<lambda>a. act_ID a = q) xs = Some row \<Longrightarrow> act_ID row = q"
  by (induction xs) (auto split: if_splits)

lemma next_fault_rows:
  "next_fault st = (f, st') \<Longrightarrow>
     pullreqs st' = pullreqs st \<and> activities st' = activities st \<and> branches st' = branches st"
  by (auto simp: next_fault_def split: list.splits)

lemma UpdateActivitySeq_Inr:
  assumes "PullReqStore_UpdateActivitySeq st pr = (Inr prUpd, st1)"
  shows "\<exists>s. activitySeq st (pr_ID pr) = Some s \<and> pr_ActivitySeq prUpd = s + 1
             \<and> activitySeq st1 (pr_ID pr) = Some (s + 1)"
    and "p \<noteq> pr_ID pr \<Longrightarrow> activitySeq st1 p = activitySeq st p"
    and "activities st1 = activities st"
    and "pr_ID prUpd = pr_ID pr"
proof -
  obtain f st' where nf: "next_fault st = (f, st')" by (cases "next_fault st")
  with assms have f: "f = None" by (cases f) (auto simp: PullReqStore_UpdateActivitySeq_def)
  from next_fault_rows[OF nf] have rows: "pullreqs st' = pullreqs st" "activities st' = activities st"
    by auto
  from assms nf f obtain row where row: "find (\<lambda>r. pr_ID r = pr_ID pr) (pullreqs st) = Some row"
    and upd: "prUpd = row\<lparr>pr_ActivitySeq := pr_ActivitySeq row + 1, pr_Version := pr_Version row + 1\<rparr>"
    and st1: "st1 = st'\<lparr>pullreqs := write_back (\<lambda>r. pr_ID r = pr_ID pr) prUpd (pullreqs st)\<rparr>"
    by (auto simp: PullReqStore_UpdateActivitySeq_def rows Let_def split: option.splits)
  have id: "pr_ID prUpd = pr_ID pr" using find_pr_ID[OF row] upd by simp
  show "pr_ID prUpd = pr_ID pr" by (rule id)
  show "activities st1 = activities st" using st1 rows by simp
  show "\<exists>s. activitySeq st (pr_ID pr) = Some s \<and> pr_ActivitySeq prUpd = s + 1
             \<and> activitySeq st1 (pr_ID pr) = Some (s + 1)"
    using row upd st1 id by (simp add: activitySeq_def find_write_back_same)
  show "p \<noteq> pr_ID pr \<Longrightarrow> activitySeq st1 p = activitySeq st p"
    using st1 id by (simp add: activitySeq_def find_write_back_other)
qed

lemma UpdateActivitySeq_Inl:
  assumes "PullReqStore_UpdateActivitySeq st pr = (Inl e, st1)"
  shows "pullreqs st1 = pullreqs st \<and> activities st1 = activities st"
proof -
  obtain f st' where nf: "next_fault st = (f, st')" by (cases "next_fault st")
  from next_fault_rows[OF nf] assms nf show ?thesis
    by (auto simp: PullReqStore_UpdateActivitySeq_def Let_def split: option.splits)
qed

lemma UpdateReplySeq_Inr:
  assumes "ActivityStore_UpdateReplySeq st parent = (Inr parentUpd, st1)"
  shows "\<exists>s. replySeq st (act_ID parent) = Some s \<and> act_ReplySeq parentUpd = s + 1
             \<and> replySeq st1 (act_ID parent) = Some (s + 1)"
    and "q \<noteq> act_ID parent \<Longrightarrow> replySeq st1 q = replySeq st q"
    and "pullreqs st1 = pullreqs st"
    and "act_ID parentUpd = act_ID parent"
    and "\<exists>row. find (\<lambda>a. act_ID a = act_ID parent) (activities st) = Some row
               \<and> act_Order parentUpd = act_Order row"
    and "top_level_orders st1 p = top_level_orders st p"
    and "reply_suborders st1 q = reply_suborders st q"
proof -
  obtain f st' where nf: "next_fault st = (f, st')" by (cases "next_fault st")
  with assms have f: "f = None" by (cases f) (auto simp: ActivityStore_UpdateReplySeq_def)
  from next_fault_rows[OF nf] have rows: "pullreqs st' = pullreqs st" "activities st' = activities st"
    by auto
  from assms nf f obtain row where row: "find (\<lambda>a. act_ID a = act_ID parent) (activities st) = Some row"
    and upd: "parentUpd = row\<lparr>act_ReplySeq := act_ReplySeq row + 1, act_Version := act_Version row + 1\<rparr>"
    and st1: "st1 = st'\<lparr>activities := write_back (\<lambda>a. act_ID a = act_ID parent) parentUpd (activities st)\<rparr>"
    by (auto simp: ActivityStore_UpdateReplySeq_def rows Let_def split: option.splits)
  have id: "act_ID parentUpd = act_ID parent" using find_act_ID[OF row] upd by simp
  show "act_ID parentUpd = act_ID parent" by (rule id)
  show "pullreqs st1 = pullreqs st" using st1 rows by simp
  show "\<exists>s. replySeq st (act_ID parent) = Some s \<and> act_ReplySeq parentUpd = s + 1
             \<and> replySeq st1 (act_ID parent) = Some (s + 1)"
    using row upd st1 id by (simp add: replySeq_def find_write_back_same)
  show "q \<noteq> act_ID parent \<Longrightarrow> replySeq st1 q = replySeq st q"
    using st1 id by (simp add: replySeq_def find_write_back_other)
  show "\<exists>row. find (\<lambda>a. act_ID a = act_ID parent) (activities st) = Some row
               \<and> act_Order parentUpd = act_Order row"
    using row upd by simp
  show "top_level_orders st1 p = top_level_orders st p"
    unfolding top_level_orders_def using st1 upd
    by (simp add: map_filter_write_back[OF row])
  show "reply_suborders st1 q = reply_suborders st q"
    unfolding reply_suborders_def using st1 upd
    by (simp add: map_filter_write_back[OF row])
qed

lemma UpdateReplySeq_Inl:
  assumes "ActivityStore_UpdateReplySeq st parent = (Inl e, st1)"
  shows "pullreqs st1 = pullreqs st \<and> activities st1 = activities st"
proof -
  obtain f st' where nf: "next_fault st = (f, st')" by (cases "next_fault st")
  from next_fault_rows[OF nf] assms nf show ?thesis
    by (auto simp: ActivityStore_UpdateReplySeq_def Let_def split: option.splits)
qed

lemma Create_rows:
  assumes "ActivityStore_Create st act = (r, st2)"
  shows "pullreqs st2 = pullreqs st"
    and "activities st2 = (case r of None \<Rightarrow> activities st @ [act] | Some e \<Rightarrow> activities st)"
proof -
  obtain f st' where nf: "next_fault st = (f, st')" by (cases "next_fault st")
  from next_fault_rows[OF nf] assms nf show "pullreqs st2 = pullreqs st"
    and "activities st2 = (case r of None \<Rightarrow> activities st @ [act] | Some e \<Rightarrow> activities st)"
    by (auto simp: ActivityStore_Create_def split: option.splits)
qed

lemma Create_replySeq:
  assumes "ActivityStore_Create st act = (r, st2)" and "replySeq st q = Some s"
  shows "replySeq st2 q = Some s"
  using Create_rows(2)[OF assms(1)] assms(2)
  by (cases r) (auto simp: replySeq_def find_append_Some)

lemma activitySeq_rows: "pullreqs st' = pullreqs st \<Longrightarrow> activitySeq st' p = activitySeq st p"
  by (simp add: activitySeq_def)

lemma replySeq_rows: "activities st' = activities st \<Longrightarrow> replySeq st' q = replySeq st q"
  by (simp add: replySeq_def)

lemma top_level_orders_rows:
  "activities st' = activities st \<Longrightarrow> top_level_orders st' p = top_level_orders st p"
  by (simp add: top_level_orders_def)

lemma reply_suborders_rows:
  "activities st' = activities st \<Longrightarrow> reply_suborders st' q = reply_suborders st q"
  by (simp add: reply_suborders_def)

lemma Create_top_level_orders:
  assumes "ActivityStore_Create st act = (r, st2)"
  shows "top_level_orders st2 p =
     (if r = None \<and> act_PullReqID act = p \<and> act_ParentID act = None
      then top_level_orders st p @ [act_Order act] else top_level_orders st p)"
  using Create_rows(2)[OF assms] by (cases r) (simp_all add: top_level_orders_def)

lemma Create_reply_suborders:
  assumes "ActivityStore_Create st act = (r, st2)"
  shows "reply_suborders st2 q =
     (if r = None \<and> act_ParentID act = Some q
      then reply_suborders st q @ [act_SubOrder act] else reply_suborders st q)"
  using Create_rows(2)[OF assms] by (cases r) (simp_all add: reply_suborders_def)

subsection \<open>Steps and schedules\<close>

text \<open>
  Two steps of one task, with nothing in between, are the sequential call: \<open>step\<close>
  cuts \<^verbatim>\<open>writeActivity\<close> and \<^verbatim>\<open>writeReplyActivity\<close> at their second store call and
  changes nothing else.
\<close>

lemma writeActivity_as_run:
  "run c [0, 0] st [Entered (WriteActivity pr act)] =
     (case writeActivity c st pr act of
        ((err, pr', act'), st') \<Rightarrow>
          (st', [Returned err (WriteActivity pr' act')],
           (case pullreqStore_UpdateActivitySeq c st pr of
              ((Inl e, pr0), st1) \<Rightarrow> []
            | ((Inr prUpd, pr0), st1) \<Rightarrow>
                [OrderAssigned (pr_ID pr) (pr_ActivitySeq prUpd)])))"
  by (simp add: writeActivity_def postponing_def resuming_def Let_def
           split: prod.splits sum.splits option.splits)

lemma writeReplyActivity_as_run:
  "run c [0, 0] st [Entered (WriteReplyActivity parent act)] =
     (case writeReplyActivity c st parent act of
        ((err, parent', act'), st') \<Rightarrow>
          (st', [Returned err (WriteReplyActivity parent' act')],
           (case activityStore_UpdateReplySeq c st parent of
              ((Inl e, parent0), st1) \<Rightarrow> []
            | ((Inr parentUpd, parent0), st1) \<Rightarrow>
                [SubOrderAssigned (act_ID parent) (act_Order parentUpd)
                   (act_ReplySeq parentUpd)])))"
  by (simp add: writeReplyActivity_def postponing_def resuming_def Let_def
           split: prod.splits sum.splits option.splits)

text \<open>
  A step either assigns no number for the counter looked at and leaves the counter as it
  is, or it moves the counter from \<open>s\<close> to \<open>s + 1\<close> and assigns \<open>s + 1\<close>. Hence,
  along any schedule, the numbers assigned from one counter are \<open>s + 1, s + 2, ...\<close>,
  in the order of assignment.
\<close>

lemma orders_of_simps [simp]:
  "orders_of p [] = []"
  "orders_of p [OrderAssigned p' n] = (if p' = p then [n] else [])"
  "orders_of p [SubOrderAssigned q n m] = []"
  "orders_of p (xs @ ys) = orders_of p xs @ orders_of p ys"
  by (simp_all add: orders_of_def)

lemma suborders_of_simps [simp]:
  "suborders_of q [] = []"
  "suborders_of q [OrderAssigned p n] = []"
  "suborders_of q [SubOrderAssigned q' n m] = (if q' = q then [m] else [])"
  "suborders_of q (xs @ ys) = suborders_of q xs @ suborders_of q ys"
  by (simp_all add: suborders_of_def)

lemmas step_defs = writeActivity_def writeReplyActivity_def postponing_def resuming_def
  controller_def leaving_def Let_def

lemma step_Entered_top:
  "step controller st (Entered (WriteActivity pr act)) = ((t', evs), st') \<Longrightarrow>
   (\<exists>e. PullReqStore_UpdateActivitySeq st pr = (Inl e, st') \<and> evs = [])
   \<or> (\<exists>prUpd. PullReqStore_UpdateActivitySeq st pr = (Inr prUpd, st')
         \<and> evs = [OrderAssigned (pr_ID pr) (pr_ActivitySeq prUpd)])"
  by (auto simp add: step_defs split: prod.splits sum.splits)

lemma step_Entered_reply:
  "step controller st (Entered (WriteReplyActivity parent act)) = ((t', evs), st') \<Longrightarrow>
   (\<exists>e. ActivityStore_UpdateReplySeq st parent = (Inl e, st') \<and> evs = [])
   \<or> (\<exists>parentUpd. ActivityStore_UpdateReplySeq st parent = (Inr parentUpd, st')
         \<and> evs = [SubOrderAssigned (act_ID parent) (act_Order parentUpd) (act_ReplySeq parentUpd)])"
  by (auto simp add: step_defs split: prod.splits sum.splits)

lemma step_Bumped:
  "step controller st (Bumped k) = ((t', evs), st') \<Longrightarrow>
   \<exists>act r. ActivityStore_Create st act = (r, st') \<and> evs = []"
  by (cases k) (auto simp add: step_defs split: prod.splits option.splits)

lemma step_orders:
  assumes "step controller st t = ((t', evs), st')"
  shows "(orders_of p evs = [] \<and> (\<forall>s. activitySeq st p = Some s \<longrightarrow> activitySeq st' p = Some s))
       \<or> (\<exists>s. activitySeq st p = Some s \<and> activitySeq st' p = Some (s + 1)
               \<and> orders_of p evs = [s + 1])"
proof (cases t)
  case (Entered k)
  show ?thesis
  proof (cases k)
    case (WriteActivity pr act)
    from step_Entered_top[OF assms[unfolded Entered WriteActivity]]
    show ?thesis
    proof (elim disjE exE conjE)
      fix e assume "PullReqStore_UpdateActivitySeq st pr = (Inl e, st')" "evs = []"
      with UpdateActivitySeq_Inl[of st pr e st'] activitySeq_rows[of st' st p] show ?thesis
        by simp
    next
      fix prUpd assume ok: "PullReqStore_UpdateActivitySeq st pr = (Inr prUpd, st')"
        and ev: "evs = [OrderAssigned (pr_ID pr) (pr_ActivitySeq prUpd)]"
      show ?thesis
      proof (cases "p = pr_ID pr")
        case True
        with UpdateActivitySeq_Inr(1)[OF ok] ev show ?thesis by auto
      next
        case False
        with UpdateActivitySeq_Inr(2)[OF ok, of p] ev show ?thesis by simp
      qed
    qed
  next
    case (WriteReplyActivity parent act)
    from step_Entered_reply[OF assms[unfolded Entered WriteReplyActivity]]
    show ?thesis
    proof (elim disjE exE conjE)
      fix e assume "ActivityStore_UpdateReplySeq st parent = (Inl e, st')" "evs = []"
      with UpdateReplySeq_Inl[of st parent e st'] activitySeq_rows[of st' st p] show ?thesis
        by simp
    next
      fix parentUpd assume ok: "ActivityStore_UpdateReplySeq st parent = (Inr parentUpd, st')"
        and ev: "evs = [SubOrderAssigned (act_ID parent) (act_Order parentUpd) (act_ReplySeq parentUpd)]"
      with UpdateReplySeq_Inr(3)[OF ok] activitySeq_rows[of st' st p] show ?thesis
        by simp
    qed
  qed
next
  case (Bumped k)
  from step_Bumped[OF assms[unfolded Bumped]] obtain act r
    where cr: "ActivityStore_Create st act = (r, st')" and ev: "evs = []" by blast
  with Create_rows(1)[OF cr] activitySeq_rows[of st' st p] show ?thesis by simp
next
  case (Returned e k)
  with assms show ?thesis by simp
qed

lemma step_suborders:
  assumes "step controller st t = ((t', evs), st')"
  shows "(suborders_of q evs = [] \<and> (\<forall>s. replySeq st q = Some s \<longrightarrow> replySeq st' q = Some s))
       \<or> (\<exists>s. replySeq st q = Some s \<and> replySeq st' q = Some (s + 1)
               \<and> suborders_of q evs = [s + 1])"
proof (cases t)
  case (Entered k)
  show ?thesis
  proof (cases k)
    case (WriteActivity pr act)
    from step_Entered_top[OF assms[unfolded Entered WriteActivity]]
    show ?thesis
    proof (elim disjE exE conjE)
      fix e assume "PullReqStore_UpdateActivitySeq st pr = (Inl e, st')" "evs = []"
      with UpdateActivitySeq_Inl[of st pr e st'] replySeq_rows[of st' st q] show ?thesis
        by simp
    next
      fix prUpd assume ok: "PullReqStore_UpdateActivitySeq st pr = (Inr prUpd, st')"
        and ev: "evs = [OrderAssigned (pr_ID pr) (pr_ActivitySeq prUpd)]"
      with UpdateActivitySeq_Inr(3)[OF ok] replySeq_rows[of st' st q] show ?thesis
        by simp
    qed
  next
    case (WriteReplyActivity parent act)
    from step_Entered_reply[OF assms[unfolded Entered WriteReplyActivity]]
    show ?thesis
    proof (elim disjE exE conjE)
      fix e assume "ActivityStore_UpdateReplySeq st parent = (Inl e, st')" "evs = []"
      with UpdateReplySeq_Inl[of st parent e st'] replySeq_rows[of st' st q] show ?thesis
        by simp
    next
      fix parentUpd assume ok: "ActivityStore_UpdateReplySeq st parent = (Inr parentUpd, st')"
        and ev: "evs = [SubOrderAssigned (act_ID parent) (act_Order parentUpd) (act_ReplySeq parentUpd)]"
      show ?thesis
      proof (cases "q = act_ID parent")
        case True
        with UpdateReplySeq_Inr(1)[OF ok] ev show ?thesis by auto
      next
        case False
        with UpdateReplySeq_Inr(2)[OF ok, of q] ev show ?thesis by simp
      qed
    qed
  qed
next
  case (Bumped k)
  from step_Bumped[OF assms[unfolded Bumped]] obtain act r
    where cr: "ActivityStore_Create st act = (r, st')" and ev: "evs = []" by blast
  with Create_replySeq[OF cr, of q] show ?thesis by simp
next
  case (Returned e k)
  with assms show ?thesis by simp
qed

lemma run_Cons:
  "i < length ts \<Longrightarrow> step c st (ts ! i) = ((t', evs), st') \<Longrightarrow>
   assigned c (i # sched) st ts = evs @ assigned c sched st' (ts[i := t'])
   \<and> final_state c (i # sched) st ts = final_state c sched st' (ts[i := t'])"
  by (simp add: assigned_def final_state_def split: prod.splits)

lemma run_skip:
  "\<not> i < length ts \<Longrightarrow>
   assigned c (i # sched) st ts = assigned c sched st ts
   \<and> final_state c (i # sched) st ts = final_state c sched st ts"
  by (simp add: assigned_def final_state_def)

lemma run_Nil: "assigned c [] st ts = [] \<and> final_state c [] st ts = st"
  by (simp add: assigned_def final_state_def)

lemma run_counter:
  fixes cnt :: "'st \<Rightarrow> int option" and proj :: "event list \<Rightarrow> int list"
  assumes stp: "\<And>st t t' evs st'. step c st t = ((t', evs), st') \<Longrightarrow>
      (proj evs = [] \<and> (\<forall>s. cnt st = Some s \<longrightarrow> cnt st' = Some s))
      \<or> (\<exists>s. cnt st = Some s \<and> cnt st' = Some (s + 1) \<and> proj evs = [s + 1])"
    and app: "\<And>xs ys. proj (xs @ ys) = proj xs @ proj ys"
    and nil: "proj [] = []"
  shows "sorted_wrt (<) (proj (assigned c sched st ts))
     \<and> (\<forall>s. cnt st = Some s \<longrightarrow>
           proj (assigned c sched st ts)
             = [s + 1 .. s + int (length (proj (assigned c sched st ts)))]
           \<and> cnt (final_state c sched st ts)
             = Some (s + int (length (proj (assigned c sched st ts)))))"
proof (induction sched arbitrary: st ts)
  case Nil
  show ?case by (simp add: run_Nil nil)
next
  case (Cons i sched)
  show ?case
  proof (cases "i < length ts")
    case False
    with Cons.IH[of st ts] show ?thesis by (simp add: run_skip)
  next
    case True
    obtain t' evs st' where s: "step c st (ts ! i) = ((t', evs), st')"
      by (metis prod.exhaust)
    let ?rest = "proj (assigned c sched st' (ts[i := t']))"
    from run_Cons[OF True s, of sched]
    have a: "proj (assigned c (i # sched) st ts) = proj evs @ ?rest"
      and f: "final_state c (i # sched) st ts = final_state c sched st' (ts[i := t'])"
      by (simp_all add: app)
    note IH = Cons.IH[of st' "ts[i := t']"]
    from stp[OF s] show ?thesis
    proof (elim disjE exE conjE)
      assume e: "proj evs = []" and k: "\<forall>s. cnt st = Some s \<longrightarrow> cnt st' = Some s"
      with IH a f show ?thesis by simp
    next
      fix s assume c0: "cnt st = Some s" and c1: "cnt st' = Some (s + 1)"
        and e: "proj evs = [s + 1]"
      from IH c1 have r: "?rest = [s + 1 + 1 .. s + 1 + int (length ?rest)]"
        and fin: "cnt (final_state c sched st' (ts[i := t'])) = Some (s + 1 + int (length ?rest))"
        by simp_all
      have "[s + 1 .. s + 1 + int (length ?rest)] = (s + 1) # [s + 1 + 1 .. s + 1 + int (length ?rest)]"
        by (rule upto_rec1) simp
      with r have whole: "proj evs @ ?rest = [s + 1 .. s + 1 + int (length ?rest)]"
        using e by simp
      have len: "s + int (length (proj evs @ ?rest)) = s + 1 + int (length ?rest)"
        using e by simp
      have srt: "sorted_wrt (<) (proj evs @ ?rest)"
        by (subst whole) (rule sorted_wrt_upto)
      from whole len srt fin c0 a f show ?thesis by (simp add: ac_simps)
    qed
  qed
qed

lemma orders_run:
  "sorted_wrt (<) (orders_of p (assigned controller sched st ts))
   \<and> (\<forall>s. activitySeq st p = Some s \<longrightarrow>
         orders_of p (assigned controller sched st ts)
           = [s + 1 .. s + int (length (orders_of p (assigned controller sched st ts)))]
         \<and> activitySeq (final_state controller sched st ts) p
           = Some (s + int (length (orders_of p (assigned controller sched st ts)))))"
  by (rule run_counter[where cnt = "\<lambda>st. activitySeq st p" and proj = "orders_of p"])
     (simp_all add: step_orders)

lemma suborders_run:
  "sorted_wrt (<) (suborders_of q (assigned controller sched st ts))
   \<and> (\<forall>s. replySeq st q = Some s \<longrightarrow>
         suborders_of q (assigned controller sched st ts)
           = [s + 1 .. s + int (length (suborders_of q (assigned controller sched st ts)))]
         \<and> replySeq (final_state controller sched st ts) q
           = Some (s + int (length (suborders_of q (assigned controller sched st ts)))))"
  by (rule run_counter[where cnt = "\<lambda>st. replySeq st q" and proj = "suborders_of q"])
     (simp_all add: step_suborders)

lemma upto_above: "xs = [s + 1 .. k] \<Longrightarrow> \<forall>n\<in>set xs. (s::int) < n"
  by simp

subsection \<open>The rows persisted\<close>

text \<open>
  The invariant is kept by every step of a well-formed call: a successful bump moves the
  counter to \<open>s + 1\<close> and the task holds \<open>s + 1\<close>, greater than every number in a
  row or held; a successful row write moves the number held into a row; every other step
  leaves counter and rows alone. Hence it is kept along every schedule.
\<close>

lemma rows_invD:
  assumes "rows_inv (Some s) R held ts"
  shows "distinct R" and "\<And>n. n \<in> set R \<Longrightarrow> n \<le> s"
    and "\<And>k. k < length ts \<Longrightarrow> in_flight (ts ! k)"
    and "\<And>k n. k < length ts \<Longrightarrow> held (ts ! k) = Some n \<Longrightarrow> n \<le> s"
    and "\<And>k n. k < length ts \<Longrightarrow> held (ts ! k) = Some n \<Longrightarrow> n \<notin> set R"
    and "\<And>k j n. k < length ts \<Longrightarrow> j < length ts \<Longrightarrow> held (ts ! k) = Some n
            \<Longrightarrow> held (ts ! j) = Some n \<Longrightarrow> k = j"
  using assms unfolding rows_inv_def by blast+

lemma rows_invI:
  assumes "distinct R" and "\<And>n. n \<in> set R \<Longrightarrow> n \<le> s"
    and "\<And>k. k < length ts \<Longrightarrow> in_flight (ts ! k)"
    and "\<And>k n. k < length ts \<Longrightarrow> held (ts ! k) = Some n \<Longrightarrow> n \<le> s"
    and "\<And>k n. k < length ts \<Longrightarrow> held (ts ! k) = Some n \<Longrightarrow> n \<notin> set R"
    and "\<And>k j n. k < length ts \<Longrightarrow> j < length ts \<Longrightarrow> held (ts ! k) = Some n
            \<Longrightarrow> held (ts ! j) = Some n \<Longrightarrow> k = j"
  shows "rows_inv (Some s) R held ts"
  using assms unfolding rows_inv_def by blast

lemma rows_inv_assign:
  assumes inv: "rows_inv (Some s) R held ts" and i: "i < length ts" and fl: "in_flight t'"
    and h': "held t' = Some (s + 1)"
  shows "rows_inv (Some (s + 1)) R held (ts[i := t'])"
proof (rule rows_invI)
  note D = rows_invD[OF inv]
  show "distinct R" by (rule D(1))
  show "n \<le> s + 1" if "n \<in> set R" for n using D(2)[OF that] by simp
  show "in_flight (ts[i := t'] ! k)" if "k < length (ts[i := t'])" for k
    using that D(3)[of k] fl i by (cases "k = i") simp_all
  have old: "n \<le> s \<and> n \<notin> set R"
    if "k < length (ts[i := t'])" "k \<noteq> i" "held (ts[i := t'] ! k) = Some n" for k n
    using that D(4)[of k n] D(5)[of k n] by simp
  have new: "n = s + 1" if "held (ts[i := t'] ! i) = Some n" for n
    using that i h' by simp
  have fresh: "s + 1 \<notin> set R" using D(2)[of "s + 1"] by auto
  show "n \<le> s + 1" if "k < length (ts[i := t'])" "held (ts[i := t'] ! k) = Some n" for k n
  proof (cases "k = i")
    case True with new that show ?thesis by simp
  next
    case False with old[OF that(1) False that(2)] show ?thesis by simp
  qed
  show "n \<notin> set R" if "k < length (ts[i := t'])" "held (ts[i := t'] ! k) = Some n" for k n
  proof (cases "k = i")
    case True with new that fresh show ?thesis by simp
  next
    case False with old[OF that(1) False that(2)] show ?thesis by simp
  qed
  show "k = j" if "k < length (ts[i := t'])" "j < length (ts[i := t'])"
      "held (ts[i := t'] ! k) = Some n" "held (ts[i := t'] ! j) = Some n" for k j n
  proof (cases "k = i")
    case ki: True
    with new that have n: "n = s + 1" by simp
    show ?thesis
    proof (cases "j = i")
      case True with ki show ?thesis by simp
    next
      case False
      from old[OF that(2) False that(4)] n show ?thesis by simp
    qed
  next
    case ki: False
    note ok = old[OF that(1) ki that(3)]
    show ?thesis
    proof (cases "j = i")
      case True
      with new that have "n = s + 1" by simp
      with ok show ?thesis by simp
    next
      case False
      with ki that D(6)[of k j n] show ?thesis by simp
    qed
  qed
qed

lemma rows_inv_write:
  assumes inv: "rows_inv (Some s) R held ts" and i: "i < length ts" and fl: "in_flight t'"
    and h: "held (ts ! i) = Some m" and h': "held t' = None"
  shows "rows_inv (Some s) (R @ [m]) held (ts[i := t'])"
proof (rule rows_invI)
  note D = rows_invD[OF inv]
  show "distinct (R @ [m])" using D(1) D(5)[OF i h] by simp
  show "n \<le> s" if "n \<in> set (R @ [m])" for n
    using that D(2)[of n] D(4)[OF i h] by auto
  show "in_flight (ts[i := t'] ! k)" if "k < length (ts[i := t'])" for k
    using that D(3)[of k] fl i by (cases "k = i") simp_all
  have old: "k \<noteq> i \<and> held (ts ! k) = Some n"
    if "k < length (ts[i := t'])" "held (ts[i := t'] ! k) = Some n" for k n
    using that i h' by (cases "k = i") simp_all
  show "n \<le> s" if "k < length (ts[i := t'])" "held (ts[i := t'] ! k) = Some n" for k n
    using old[OF that] that(1) D(4)[of k n] by simp
  show "n \<notin> set (R @ [m])"
    if "k < length (ts[i := t'])" "held (ts[i := t'] ! k) = Some n" for k n
  proof -
    from old[OF that] have ki: "k \<noteq> i" and hk: "held (ts ! k) = Some n" by simp_all
    from that(1) have k: "k < length ts" by simp
    from D(6)[OF k i hk] h ki have "n \<noteq> m" by auto
    with D(5)[OF k hk] show ?thesis by simp
  qed
  show "k = j" if "k < length (ts[i := t'])" "j < length (ts[i := t'])"
      "held (ts[i := t'] ! k) = Some n" "held (ts[i := t'] ! j) = Some n" for k j n
    using old[OF that(1,3)] old[OF that(2,4)] that(1,2) D(6)[of k j n] by simp
qed

lemma rows_inv_drop:
  assumes inv: "rows_inv (Some s) R held ts" and i: "i < length ts" and fl: "in_flight t'"
    and h': "held t' = None"
  shows "rows_inv (Some s) R held (ts[i := t'])"
proof (rule rows_invI)
  note D = rows_invD[OF inv]
  show "distinct R" by (rule D(1))
  show "n \<le> s" if "n \<in> set R" for n using D(2)[OF that] .
  show "in_flight (ts[i := t'] ! k)" if "k < length (ts[i := t'])" for k
    using that D(3)[of k] fl i by (cases "k = i") simp_all
  have old: "k \<noteq> i \<and> held (ts ! k) = Some n"
    if "k < length (ts[i := t'])" "held (ts[i := t'] ! k) = Some n" for k n
    using that i h' by (cases "k = i") simp_all
  show "n \<le> s" if "k < length (ts[i := t'])" "held (ts[i := t'] ! k) = Some n" for k n
    using old[OF that] that(1) D(4)[of k n] by simp
  show "n \<notin> set R" if "k < length (ts[i := t'])" "held (ts[i := t'] ! k) = Some n" for k n
    using old[OF that] that(1) D(5)[of k n] by simp
  show "k = j" if "k < length (ts[i := t'])" "j < length (ts[i := t'])"
      "held (ts[i := t'] ! k) = Some n" "held (ts[i := t'] ! j) = Some n" for k j n
    using old[OF that(1,3)] old[OF that(2,4)] that(1,2) D(6)[of k j n] by simp
qed

lemma tasks_Cons:
  "i < length ts \<Longrightarrow> step c st (ts ! i) = ((t', evs), st') \<Longrightarrow>
   final_tasks c (i # sched) st ts = final_tasks c sched st' (ts[i := t'])"
  by (simp add: final_tasks_def split: prod.splits)

lemma tasks_skip:
  "\<not> i < length ts \<Longrightarrow> final_tasks c (i # sched) st ts = final_tasks c sched st ts"
  by (simp add: final_tasks_def)

lemma tasks_Nil: "final_tasks c [] st ts = ts"
  by (simp add: final_tasks_def)

lemma run_rows_inv:
  fixes cnt :: "'st \<Rightarrow> int option" and rows :: "'st \<Rightarrow> int list"
  assumes stp: "\<And>st t t' evs st' s.
      step c st t = ((t', evs), st') \<Longrightarrow> in_flight t \<Longrightarrow> cnt st = Some s \<Longrightarrow>
      in_flight t'
      \<and> ((cnt st' = Some (s + 1) \<and> rows st' = rows st \<and> held t' = Some (s + 1))
         \<or> (\<exists>m. cnt st' = Some s \<and> held t = Some m \<and> held t' = None
                 \<and> rows st' = rows st @ [m])
         \<or> (cnt st' = Some s \<and> rows st' = rows st \<and> held t' = None))"
  shows "rows_inv (cnt st) (rows st) held ts \<Longrightarrow>
         rows_inv (cnt (final_state c sched st ts)) (rows (final_state c sched st ts)) held
           (final_tasks c sched st ts)"
proof (induction sched arbitrary: st ts)
  case Nil
  then show ?case by (simp add: run_Nil tasks_Nil)
next
  case (Cons i sched)
  show ?case
  proof (cases "i < length ts")
    case False
    with Cons.IH[OF Cons.prems] show ?thesis by (simp add: run_skip tasks_skip)
  next
    case True
    obtain t' evs st' where s: "step c st (ts ! i) = ((t', evs), st')"
      by (metis prod.exhaust)
    from Cons.prems obtain s0 where c0: "cnt st = Some s0"
      by (auto simp: rows_inv_def)
    with Cons.prems have inv: "rows_inv (Some s0) (rows st) held ts" by simp
    from rows_invD(3)[OF inv True] have fl: "in_flight (ts ! i)" .
    from stp[OF s fl c0] have fl': "in_flight t'"
      and cases: "(cnt st' = Some (s0 + 1) \<and> rows st' = rows st \<and> held t' = Some (s0 + 1))
         \<or> (\<exists>m. cnt st' = Some s0 \<and> held (ts ! i) = Some m \<and> held t' = None
                 \<and> rows st' = rows st @ [m])
         \<or> (cnt st' = Some s0 \<and> rows st' = rows st \<and> held t' = None)"
      by blast+
    from cases have "rows_inv (cnt st') (rows st') held (ts[i := t'])"
    proof (elim disjE exE conjE)
      assume "cnt st' = Some (s0 + 1)" "rows st' = rows st" "held t' = Some (s0 + 1)"
      with rows_inv_assign[OF inv True fl'] show ?thesis by simp
    next
      fix m assume "cnt st' = Some s0" "held (ts ! i) = Some m" "held t' = None"
        "rows st' = rows st @ [m]"
      with rows_inv_write[OF inv True fl'] show ?thesis by simp
    next
      assume "cnt st' = Some s0" "rows st' = rows st" "held t' = None"
      with rows_inv_drop[OF inv True fl'] show ?thesis by simp
    qed
    from Cons.IH[OF this] run_Cons[OF True s, of sched] tasks_Cons[OF True s, of sched]
    show ?thesis by simp
  qed
qed

lemma step_Entered_top_task:
  "step controller st (Entered (WriteActivity pr act)) = ((t', evs), st') \<Longrightarrow>
   (\<exists>e err. PullReqStore_UpdateActivitySeq st pr = (Inl e, st')
        \<and> t' = Returned err (WriteActivity pr act))
   \<or> (\<exists>prUpd. PullReqStore_UpdateActivitySeq st pr = (Inr prUpd, st')
         \<and> t' = Bumped (WriteActivity prUpd (act\<lparr>act_Order := pr_ActivitySeq prUpd\<rparr>)))"
  by (auto simp add: step_defs split: prod.splits sum.splits)

lemma step_Entered_reply_task:
  "step controller st (Entered (WriteReplyActivity parent act)) = ((t', evs), st') \<Longrightarrow>
   (\<exists>e err. ActivityStore_UpdateReplySeq st parent = (Inl e, st')
        \<and> t' = Returned err (WriteReplyActivity parent act))
   \<or> (\<exists>parentUpd. ActivityStore_UpdateReplySeq st parent = (Inr parentUpd, st')
         \<and> t' = Bumped (WriteReplyActivity parentUpd
                  (act\<lparr>act_Order := act_Order parentUpd,
                       act_SubOrder := act_ReplySeq parentUpd\<rparr>)))"
  by (auto simp add: step_defs split: prod.splits sum.splits)

lemma step_Bumped_top_task:
  "step controller st (Bumped (WriteActivity pr act)) = ((t', evs), st') \<Longrightarrow>
   \<exists>r err. ActivityStore_Create st (act\<lparr>act_Order := pr_ActivitySeq pr\<rparr>) = (r, st')
      \<and> t' = Returned err (WriteActivity pr (act\<lparr>act_Order := pr_ActivitySeq pr\<rparr>))"
  by (auto simp add: step_defs split: prod.splits option.splits)

lemma step_Bumped_reply_task:
  "step controller st (Bumped (WriteReplyActivity parent act)) = ((t', evs), st') \<Longrightarrow>
   \<exists>r err. ActivityStore_Create st
              (act\<lparr>act_Order := act_Order parent, act_SubOrder := act_ReplySeq parent\<rparr>)
            = (r, st')
      \<and> t' = Returned err (WriteReplyActivity parent
                  (act\<lparr>act_Order := act_Order parent, act_SubOrder := act_ReplySeq parent\<rparr>))"
  by (auto simp add: step_defs split: prod.splits option.splits)

lemma step_order_rows:
  assumes s: "step controller st t = ((t', evs), st')" and fl: "in_flight t"
    and c: "activitySeq st p = Some s"
  shows "in_flight t'
      \<and> ((activitySeq st' p = Some (s + 1) \<and> top_level_orders st' p = top_level_orders st p
            \<and> held_order p t' = Some (s + 1))
         \<or> (\<exists>m. activitySeq st' p = Some s \<and> held_order p t = Some m
                 \<and> held_order p t' = None
                 \<and> top_level_orders st' p = top_level_orders st p @ [m])
         \<or> (activitySeq st' p = Some s \<and> top_level_orders st' p = top_level_orders st p
            \<and> held_order p t' = None))"
proof (cases t)
  case (Entered k)
  show ?thesis
  proof (cases k)
    case (WriteActivity pr act)
    from fl Entered WriteActivity
    have wf: "act_PullReqID act = pr_ID pr" "act_ParentID act = None" by simp_all
    from step_Entered_top_task[OF s[unfolded Entered WriteActivity]]
    show ?thesis
    proof (elim disjE exE conjE)
      fix e err assume u: "PullReqStore_UpdateActivitySeq st pr = (Inl e, st')"
        and t': "t' = Returned err (WriteActivity pr act)"
      from UpdateActivitySeq_Inl[OF u] activitySeq_rows[of st' st p]
        top_level_orders_rows[of st' st p] c t'
      show ?thesis by simp
    next
      fix prUpd assume u: "PullReqStore_UpdateActivitySeq st pr = (Inr prUpd, st')"
        and t': "t' = Bumped (WriteActivity prUpd (act\<lparr>act_Order := pr_ActivitySeq prUpd\<rparr>))"
      note U = UpdateActivitySeq_Inr[OF u]
      from t' wf U(4) have fl': "in_flight t'" by simp
      from top_level_orders_rows[OF U(3), of p]
      have rows: "top_level_orders st' p = top_level_orders st p" .
      show ?thesis
      proof (cases "p = pr_ID pr")
        case True
        with U(1) c have "activitySeq st' p = Some (s + 1)" "pr_ActivitySeq prUpd = s + 1"
          by auto
        with fl' rows t' U(4) True show ?thesis by simp
      next
        case False
        with U(2)[of p] c have "activitySeq st' p = Some s" by simp
        with fl' rows t' U(4) False show ?thesis by simp
      qed
    qed
  next
    case (WriteReplyActivity parent act)
    from fl Entered WriteReplyActivity
    have wf: "act_ParentID act = Some (act_ID parent)" by simp
    from step_Entered_reply_task[OF s[unfolded Entered WriteReplyActivity]]
    show ?thesis
    proof (elim disjE exE conjE)
      fix e err assume u: "ActivityStore_UpdateReplySeq st parent = (Inl e, st')"
        and t': "t' = Returned err (WriteReplyActivity parent act)"
      from UpdateReplySeq_Inl[OF u] activitySeq_rows[of st' st p]
        top_level_orders_rows[of st' st p] c t'
      show ?thesis by simp
    next
      fix parentUpd assume u: "ActivityStore_UpdateReplySeq st parent = (Inr parentUpd, st')"
        and t': "t' = Bumped (WriteReplyActivity parentUpd
                  (act\<lparr>act_Order := act_Order parentUpd,
                       act_SubOrder := act_ReplySeq parentUpd\<rparr>))"
      note U = UpdateReplySeq_Inr[OF u]
      from t' wf U(4) have fl': "in_flight t'" by simp
      from activitySeq_rows[OF U(3), of p] c have "activitySeq st' p = Some s" by simp
      with fl' U(6)[of p] t' show ?thesis by simp
    qed
  qed
next
  case (Bumped k)
  show ?thesis
  proof (cases k)
    case (WriteActivity pr act)
    from fl Bumped WriteActivity
    have wf: "act_PullReqID act = pr_ID pr" "act_ParentID act = None" by simp_all
    let ?a = "act\<lparr>act_Order := pr_ActivitySeq pr\<rparr>"
    from step_Bumped_top_task[OF s[unfolded Bumped WriteActivity]] obtain r err
      where cr: "ActivityStore_Create st ?a = (r, st')"
        and t': "t' = Returned err (WriteActivity pr ?a)" by blast
    from activitySeq_rows[OF Create_rows(1)[OF cr], of p] c
    have c': "activitySeq st' p = Some s" by simp
    from Create_top_level_orders[OF cr, of p] wf c' t' Bumped WriteActivity
    show ?thesis by (cases "r = None \<and> pr_ID pr = p") auto
  next
    case (WriteReplyActivity parent act)
    from fl Bumped WriteReplyActivity
    have wf: "act_ParentID act = Some (act_ID parent)" by simp
    let ?a = "act\<lparr>act_Order := act_Order parent, act_SubOrder := act_ReplySeq parent\<rparr>"
    from step_Bumped_reply_task[OF s[unfolded Bumped WriteReplyActivity]] obtain r err
      where cr: "ActivityStore_Create st ?a = (r, st')"
        and t': "t' = Returned err (WriteReplyActivity parent ?a)" by blast
    from activitySeq_rows[OF Create_rows(1)[OF cr], of p] c
    have c': "activitySeq st' p = Some s" by simp
    from Create_top_level_orders[OF cr, of p] wf c' t'
    show ?thesis by simp
  qed
next
  case (Returned e k)
  with s c show ?thesis by auto
qed

lemma step_suborder_rows:
  assumes s: "step controller st t = ((t', evs), st')" and fl: "in_flight t"
    and c: "replySeq st q = Some s"
  shows "in_flight t'
      \<and> ((replySeq st' q = Some (s + 1) \<and> reply_suborders st' q = reply_suborders st q
            \<and> held_suborder q t' = Some (s + 1))
         \<or> (\<exists>m. replySeq st' q = Some s \<and> held_suborder q t = Some m
                 \<and> held_suborder q t' = None
                 \<and> reply_suborders st' q = reply_suborders st q @ [m])
         \<or> (replySeq st' q = Some s \<and> reply_suborders st' q = reply_suborders st q
            \<and> held_suborder q t' = None))"
proof (cases t)
  case (Entered k)
  show ?thesis
  proof (cases k)
    case (WriteActivity pr act)
    from fl Entered WriteActivity
    have wf: "act_PullReqID act = pr_ID pr" "act_ParentID act = None" by simp_all
    from step_Entered_top_task[OF s[unfolded Entered WriteActivity]]
    show ?thesis
    proof (elim disjE exE conjE)
      fix e err assume u: "PullReqStore_UpdateActivitySeq st pr = (Inl e, st')"
        and t': "t' = Returned err (WriteActivity pr act)"
      from UpdateActivitySeq_Inl[OF u] replySeq_rows[of st' st q]
        reply_suborders_rows[of st' st q] c t'
      show ?thesis by simp
    next
      fix prUpd assume u: "PullReqStore_UpdateActivitySeq st pr = (Inr prUpd, st')"
        and t': "t' = Bumped (WriteActivity prUpd (act\<lparr>act_Order := pr_ActivitySeq prUpd\<rparr>))"
      note U = UpdateActivitySeq_Inr[OF u]
      from t' wf U(4) have fl': "in_flight t'" by simp
      from replySeq_rows[OF U(3), of q] c have "replySeq st' q = Some s" by simp
      with fl' reply_suborders_rows[OF U(3), of q] t' show ?thesis by simp
    qed
  next
    case (WriteReplyActivity parent act)
    from fl Entered WriteReplyActivity
    have wf: "act_ParentID act = Some (act_ID parent)" by simp
    from step_Entered_reply_task[OF s[unfolded Entered WriteReplyActivity]]
    show ?thesis
    proof (elim disjE exE conjE)
      fix e err assume u: "ActivityStore_UpdateReplySeq st parent = (Inl e, st')"
        and t': "t' = Returned err (WriteReplyActivity parent act)"
      from UpdateReplySeq_Inl[OF u] replySeq_rows[of st' st q]
        reply_suborders_rows[of st' st q] c t'
      show ?thesis by simp
    next
      fix parentUpd assume u: "ActivityStore_UpdateReplySeq st parent = (Inr parentUpd, st')"
        and t': "t' = Bumped (WriteReplyActivity parentUpd
                  (act\<lparr>act_Order := act_Order parentUpd,
                       act_SubOrder := act_ReplySeq parentUpd\<rparr>))"
      note U = UpdateReplySeq_Inr[OF u]
      from t' wf U(4) have fl': "in_flight t'" by simp
      note rows = U(7)[of q]
      show ?thesis
      proof (cases "q = act_ID parent")
        case True
        with U(1) c have "replySeq st' q = Some (s + 1)" "act_ReplySeq parentUpd = s + 1"
          by auto
        with fl' rows t' U(4) True show ?thesis by simp
      next
        case False
        with U(2)[of q] c have "replySeq st' q = Some s" by simp
        with fl' rows t' U(4) False show ?thesis by simp
      qed
    qed
  qed
next
  case (Bumped k)
  show ?thesis
  proof (cases k)
    case (WriteActivity pr act)
    from fl Bumped WriteActivity
    have wf: "act_PullReqID act = pr_ID pr" "act_ParentID act = None" by simp_all
    let ?a = "act\<lparr>act_Order := pr_ActivitySeq pr\<rparr>"
    from step_Bumped_top_task[OF s[unfolded Bumped WriteActivity]] obtain r err
      where cr: "ActivityStore_Create st ?a = (r, st')"
        and t': "t' = Returned err (WriteActivity pr ?a)" by blast
    from Create_replySeq[OF cr c] Create_reply_suborders[OF cr, of q] wf t'
    show ?thesis by simp
  next
    case (WriteReplyActivity parent act)
    from fl Bumped WriteReplyActivity
    have wf: "act_ParentID act = Some (act_ID parent)" by simp
    let ?a = "act\<lparr>act_Order := act_Order parent, act_SubOrder := act_ReplySeq parent\<rparr>"
    from step_Bumped_reply_task[OF s[unfolded Bumped WriteReplyActivity]] obtain r err
      where cr: "ActivityStore_Create st ?a = (r, st')"
        and t': "t' = Returned err (WriteReplyActivity parent ?a)" by blast
    from Create_replySeq[OF cr c] Create_reply_suborders[OF cr, of q] wf t'
      Bumped WriteReplyActivity
    show ?thesis by (cases "r = None \<and> act_ID parent = q") auto
  qed
next
  case (Returned e k)
  with s c show ?thesis by auto
qed

lemma entered_in_flight: "entered t \<Longrightarrow> in_flight t"
  by (cases t) simp_all

lemma entered_holds_nothing: "entered t \<Longrightarrow> held_order p t = None \<and> held_suborder q t = None"
  by (cases t) simp_all

lemma rows_inv_entered:
  assumes "distinct R" and "\<forall>n\<in>set R. n \<le> s" and "\<forall>t\<in>set ts. entered t"
  shows "rows_inv (Some s) R (held_order p) ts" and "rows_inv (Some s) R (held_suborder q) ts"
proof -
  have e: "entered (ts ! k)" if "k < length ts" for k using assms(3) that by simp
  show "rows_inv (Some s) R (held_order p) ts"
    using assms(1,2) entered_in_flight[OF e] entered_holds_nothing[OF e, of _ p]
    by (intro rows_invI) auto
  show "rows_inv (Some s) R (held_suborder q) ts"
    using assms(1,2) entered_in_flight[OF e] entered_holds_nothing[OF e, of _ _ q]
    by (intro rows_invI) auto
qed

lemma order_rows_run:
  assumes "\<forall>t\<in>set ts. entered t" and "activitySeq st p = Some s"
    and "distinct (top_level_orders st p)" and "\<forall>n\<in>set (top_level_orders st p). n \<le> s"
  shows "distinct (top_level_orders (final_state controller sched st ts) p)
     \<and> (\<forall>n\<in>set (top_level_orders (final_state controller sched st ts) p).
           n \<le> s + int (length (orders_of p (assigned controller sched st ts))))"
proof -
  let ?fin = "final_state controller sched st ts"
  from rows_inv_entered(1)[OF assms(3,4,1), of p] assms(2)
  have "rows_inv (activitySeq st p) (top_level_orders st p) (held_order p) ts" by simp
  then have "rows_inv (activitySeq ?fin p) (top_level_orders ?fin p) (held_order p)
               (final_tasks controller sched st ts)"
    by (rule run_rows_inv[where cnt = "\<lambda>st. activitySeq st p"
                            and rows = "\<lambda>st. top_level_orders st p", rotated])
       (rule step_order_rows)
  moreover from orders_run[of p sched st ts] assms(2)
  have "activitySeq ?fin p = Some (s + int (length (orders_of p (assigned controller sched st ts))))"
    by blast
  ultimately have "rows_inv (Some (s + int (length (orders_of p (assigned controller sched st ts)))))
      (top_level_orders ?fin p) (held_order p) (final_tasks controller sched st ts)" by simp
  from rows_invD(1,2)[OF this] show ?thesis by blast
qed

lemma suborder_rows_run:
  assumes "\<forall>t\<in>set ts. entered t" and "replySeq st q = Some s"
    and "distinct (reply_suborders st q)" and "\<forall>n\<in>set (reply_suborders st q). n \<le> s"
  shows "distinct (reply_suborders (final_state controller sched st ts) q)
     \<and> (\<forall>n\<in>set (reply_suborders (final_state controller sched st ts) q).
           n \<le> s + int (length (suborders_of q (assigned controller sched st ts))))"
proof -
  let ?fin = "final_state controller sched st ts"
  from rows_inv_entered(2)[OF assms(3,4,1), of q] assms(2)
  have "rows_inv (replySeq st q) (reply_suborders st q) (held_suborder q) ts" by simp
  then have "rows_inv (replySeq ?fin q) (reply_suborders ?fin q) (held_suborder q)
               (final_tasks controller sched st ts)"
    by (rule run_rows_inv[where cnt = "\<lambda>st. replySeq st q"
                            and rows = "\<lambda>st. reply_suborders st q", rotated])
       (rule step_suborder_rows)
  moreover from suborders_run[of q sched st ts] assms(2)
  have "replySeq ?fin q = Some (s + int (length (suborders_of q (assigned controller sched st ts))))"
    by blast
  ultimately have "rows_inv (Some (s + int (length (suborders_of q (assigned controller sched st ts)))))
      (reply_suborders ?fin q) (held_suborder q) (final_tasks controller sched st ts)" by simp
  from rows_invD(1,2)[OF this] show ?thesis by blast
qed

subsection \<open>The duplicate query\<close>

text \<open>
  The query of \<^verbatim>\<open>checkIfAlreadyExists\<close> selects the open pull requests of the branch
  tuple; the first element of their list sorted by number has the least number.
\<close>

lemma hd_sort_key_Min:
  fixes f :: "'a \<Rightarrow> int"
  assumes "xs \<noteq> []"
  shows "f (hd (sort_key f xs)) = Min (f ` set xs)" and "hd (sort_key f xs) \<in> set xs"
proof -
  let ?ys = "sort_key f xs"
  from assms have ne: "?ys \<noteq> []" by (metis length_0_conv length_sort)
  then obtain y ys where ys: "?ys = y # ys" by (cases ?ys) auto
  have "sorted (map f ?ys)" by (rule sorted_sort_key)
  with ys have le: "\<forall>z\<in>set ys. f y \<le> f z" by simp
  have set: "set ?ys = set xs" by simp
  with ys have mem: "y \<in> set xs" by (metis list.set_intros(1))
  have "\<forall>z\<in>set xs. f y \<le> f z"
  proof
    fix z assume "z \<in> set xs"
    with set ys have "z = y \<or> z \<in> set ys" by (metis set_ConsD)
    with le show "f y \<le> f z" by auto
  qed
  then have "Min (f ` set xs) = f y"
    using mem by (intro Min_eqI) auto
  with ys show "f (hd (sort_key f xs)) = Min (f ` set xs)" by simp
  from ys mem show "hd (sort_key f xs) \<in> set xs" by simp
qed

lemma filter_matches_open:
  "filter (matches t \<lparr>f_SourceRepoID = s, f_SourceBranch = sb, f_TargetBranch = tb,
                      f_States = [PullReqStateOpen], f_Size = n, f_Sort = srt, f_Order = ord\<rparr>)
     (pullreqs st) = open_duplicates st t s tb sb"
  unfolding open_duplicates_def
  by (rule filter_cong) (auto simp: matches_def)

lemma checkIfAlreadyExists_served:
  assumes "fst (next_fault st) = None"
  shows "fst (checkIfAlreadyExists controller st t s tb sb) =
     (if open_duplicates st t s tb sb = [] then None
      else Some (BadRequest ''a pull request for this target and source branch already exists''
                  [(''type'', AnyString ''pr already exists''),
                   (''number'', AnyInt (pr_Number (hd (sort_key pr_Number
                                                     (open_duplicates st t s tb sb)))))]))"
proof -
  obtain st' where nf: "next_fault st = (None, st')" using assms by (cases "next_fault st") auto
  from next_fault_rows[OF nf] have rows: "pullreqs st' = pullreqs st" by simp
  have od: "open_duplicates st' t s tb sb = open_duplicates st t s tb sb"
    by (simp add: open_duplicates_def rows)
  let ?M = "open_duplicates st t s tb sb"
  have l: "PullReqStore_List st t
             \<lparr>f_SourceRepoID = s, f_SourceBranch = sb, f_TargetBranch = tb,
              f_States = [PullReqStateOpen], f_Size = 1, f_Sort = PullReqSortNumber,
              f_Order = OrderAsc\<rparr> = (Inr (take 1 (sort_key pr_Number ?M)), st')"
    by (simp add: PullReqStore_List_def nf filter_matches_open od sorted_by_def)
  show ?thesis
  proof (cases "?M = []")
    case True
    with l show ?thesis by (simp add: checkIfAlreadyExists_def controller_def)
  next
    case False
    then have "sort_key pr_Number ?M \<noteq> []" by (metis length_0_conv length_sort)
    then obtain y ys where ys: "sort_key pr_Number ?M = y # ys"
      by (cases "sort_key pr_Number ?M") auto
    with l False show ?thesis by (simp add: checkIfAlreadyExists_def controller_def)
  qed
qed

subsection \<open>Wrapped errors\<close>

text \<open>
  An error is found in its own chain: wrapping keeps the cause.
\<close>

lemma errors_Is_refl: "errors_Is e e"
  by (cases e) simp_all

subsection \<open>One call on the modelled stores\<close>

text \<open>
  The whole result of a call, in terms of the two store calls it makes, and the counter
  in the state the call returns.
\<close>

lemma writeActivity_bumped:
  assumes "PullReqStore_UpdateActivitySeq st pr = (Inr prUpd, st1)"
  shows "writeActivity controller st pr act =
     ((map_option (Errorf ''failed to create pull request activity: '')
         (fst (ActivityStore_Create st1 (act\<lparr>act_Order := pr_ActivitySeq prUpd\<rparr>))),
       prUpd, act\<lparr>act_Order := pr_ActivitySeq prUpd\<rparr>),
      snd (ActivityStore_Create st1 (act\<lparr>act_Order := pr_ActivitySeq prUpd\<rparr>)))"
  using assms
  by (simp add: writeActivity_def controller_def leaving_def Let_def
           split: prod.splits option.splits)

lemma writeActivity_counter:
  assumes "PullReqStore_UpdateActivitySeq st pr = (Inr prUpd, st1)"
  shows "activitySeq st (pr_ID pr) = Some (pr_ActivitySeq prUpd - 1)"
    and "activitySeq st1 (pr_ID pr) = Some (pr_ActivitySeq prUpd)"
    and "activitySeq (snd (writeActivity controller st pr act)) (pr_ID pr)
           = Some (pr_ActivitySeq prUpd)"
proof -
  from UpdateActivitySeq_Inr(1)[OF assms]
  show a: "activitySeq st (pr_ID pr) = Some (pr_ActivitySeq prUpd - 1)"
    and b: "activitySeq st1 (pr_ID pr) = Some (pr_ActivitySeq prUpd)" by auto
  obtain r st2 where cr:
    "ActivityStore_Create st1 (act\<lparr>act_Order := pr_ActivitySeq prUpd\<rparr>) = (r, st2)"
    by (metis prod.exhaust)
  from activitySeq_rows[OF Create_rows(1)[OF cr], of "pr_ID pr"] b
    writeActivity_bumped[OF assms, of act] cr
  show "activitySeq (snd (writeActivity controller st pr act)) (pr_ID pr)
           = Some (pr_ActivitySeq prUpd)" by simp
qed

lemma writeReplyActivity_bumped:
  assumes "ActivityStore_UpdateReplySeq st parent = (Inr parentUpd, st1)"
  shows "writeReplyActivity controller st parent act =
     ((map_option (Errorf ''failed to create pull request activity: '')
         (fst (ActivityStore_Create st1
                 (act\<lparr>act_Order := act_Order parentUpd,
                      act_SubOrder := act_ReplySeq parentUpd\<rparr>))),
       parentUpd,
       act\<lparr>act_Order := act_Order parentUpd, act_SubOrder := act_ReplySeq parentUpd\<rparr>),
      snd (ActivityStore_Create st1
             (act\<lparr>act_Order := act_Order parentUpd,
                  act_SubOrder := act_ReplySeq parentUpd\<rparr>)))"
  using assms
  by (simp add: writeReplyActivity_def controller_def leaving_def Let_def
           split: prod.splits option.splits)

lemma writeReplyActivity_counter:
  assumes "ActivityStore_UpdateReplySeq st parent = (Inr parentUpd, st1)"
  shows "replySeq st (act_ID parent) = Some (act_ReplySeq parentUpd - 1)"
    and "replySeq st1 (act_ID parent) = Some (act_ReplySeq parentUpd)"
    and "replySeq (snd (writeReplyActivity controller st parent act)) (act_ID parent)
           = Some (act_ReplySeq parentUpd)"
proof -
  from UpdateReplySeq_Inr(1)[OF assms]
  show a: "replySeq st (act_ID parent) = Some (act_ReplySeq parentUpd - 1)"
    and b: "replySeq st1 (act_ID parent) = Some (act_ReplySeq parentUpd)" by auto
  obtain r st2 where cr:
    "ActivityStore_Create st1
       (act\<lparr>act_Order := act_Order parentUpd, act_SubOrder := act_ReplySeq parentUpd\<rparr>)
     = (r, st2)"
    by (metis prod.exhaust)
  from Create_replySeq[OF cr b] writeReplyActivity_bumped[OF assms, of act] cr
  show "replySeq (snd (writeReplyActivity controller st parent act)) (act_ID parent)
           = Some (act_ReplySeq parentUpd)" by simp
qed

lemma later_order_greater:
  assumes "activitySeq st2 p = Some n"
    and "PullReqStore_UpdateActivitySeq (final_state controller sched st2 ts) pr2
           = (Inr prUpd2, st3)"
    and "pr_ID pr2 = p"
  shows "n < pr_ActivitySeq prUpd2"
proof -
  from orders_run[of p sched st2 ts] assms(1)
  have "activitySeq (final_state controller sched st2 ts) p
          = Some (n + int (length (orders_of p (assigned controller sched st2 ts))))"
    by blast
  with UpdateActivitySeq_Inr(1)[OF assms(2)] assms(3) show ?thesis by auto
qed

lemma later_suborder_greater:
  assumes "replySeq st2 q = Some n"
    and "ActivityStore_UpdateReplySeq (final_state controller sched st2 ts) parent2
           = (Inr parentUpd2, st3)"
    and "act_ID parent2 = q"
  shows "n < act_ReplySeq parentUpd2"
proof -
  from suborders_run[of q sched st2 ts] assms(1)
  have "replySeq (final_state controller sched st2 ts) q
          = Some (n + int (length (suborders_of q (assigned controller sched st2 ts))))"
    by blast
  with UpdateReplySeq_Inr(1)[OF assms(2)] assms(3) show ?thesis by auto
qed

section \<open>The claims\<close>

text \<open>
  Claim C1. A call of \<^verbatim>\<open>writeActivity\<close> whose sequence bump succeeds returns the
  activity with the \<^verbatim>\<open>ActivitySeq\<close> of the updated pull request as its Order, which is
  the stored counter right after the increment (one more than before); the state the
  call returns keeps the counter there, whether the row write succeeds or fails. A call
  whose bump fails assigns nothing and leaves the counter. A later call for the same
  pull request, after any calls of other instances under any schedule, gets a greater
  Order. Served without interruption, a task is the call: \<open>run\<close> on the schedule
  \<open>[0, 0]\<close> gives the result, the objects and the state of \<^verbatim>\<open>writeActivity\<close>.

  For every pull request \<open>p\<close>, every set of calls in progress and every schedule of
  their store calls, with any faults: the Order values assigned for \<open>p\<close>, in the order
  of assignment, are strictly increasing, hence pairwise distinct; when \<open>p\<close> has a row
  with counter \<open>s\<close> they are exactly \<open>s + 1, s + 2, ...\<close>, all greater than \<open>s\<close>, and
  the counter ends at the last of them. For the rows: when the calls are the
  controller's own (each activity written for the pull request it belongs to, without
  parent; each reply carrying its parent) and the stored top-level activities of \<open>p\<close>
  have pairwise distinct Orders, none above the counter, then after any schedule the
  stored top-level activities of \<open>p\<close> still have pairwise distinct Orders, none above
  the counter. A failed row write leaves a gap among the rows, never a duplicate.
\<close>

theorem writeActivity_orders_unique_increasing:
  "(PullReqStore_UpdateActivitySeq st pr = (Inr prUpd, st1) \<longrightarrow>
      writeActivity controller st pr act =
        ((map_option (Errorf ''failed to create pull request activity: '')
            (fst (ActivityStore_Create st1 (act\<lparr>act_Order := pr_ActivitySeq prUpd\<rparr>))),
          prUpd, act\<lparr>act_Order := pr_ActivitySeq prUpd\<rparr>),
         snd (ActivityStore_Create st1 (act\<lparr>act_Order := pr_ActivitySeq prUpd\<rparr>)))
      \<and> activitySeq st (pr_ID pr) = Some (pr_ActivitySeq prUpd - 1)
      \<and> activitySeq st1 (pr_ID pr) = Some (pr_ActivitySeq prUpd)
      \<and> activitySeq (snd (writeActivity controller st pr act)) (pr_ID pr)
          = Some (pr_ActivitySeq prUpd))
   \<and> (PullReqStore_UpdateActivitySeq st pr = (Inl e, st1) \<longrightarrow>
      writeActivity controller st pr act =
        ((Some (Errorf ''failed to get pull request activity number: '' e), pr, act), st1)
      \<and> activitySeq st1 (pr_ID pr) = activitySeq st (pr_ID pr))
   \<and> (case writeActivity controller st pr act of
        ((err, pr', act'), st2) \<Rightarrow>
          (case writeActivity controller (final_state controller sched st2 ts) pr2 act2 of
             ((err2, pr2', act2'), st4) \<Rightarrow>
               PullReqStore_UpdateActivitySeq st pr = (Inr prUpd, st1)
               \<and> PullReqStore_UpdateActivitySeq (final_state controller sched st2 ts) pr2
                   = (Inr prUpd2, st3)
               \<and> pr_ID pr2 = pr_ID pr \<longrightarrow>
               act_Order act' < act_Order act2'))
   \<and> run c [0, 0] st' [Entered (WriteActivity pr act)] =
       (case writeActivity c st' pr act of
          ((err, pr', act'), st2) \<Rightarrow>
            (st2, [Returned err (WriteActivity pr' act')],
             (case pullreqStore_UpdateActivitySeq c st' pr of
                ((Inl e, pr0), st1) \<Rightarrow> []
              | ((Inr prUpd, pr0), st1) \<Rightarrow>
                  [OrderAssigned (pr_ID pr) (pr_ActivitySeq prUpd)])))
   \<and> sorted_wrt (<) (orders_of p (assigned controller sched st0 ts))
   \<and> distinct (orders_of p (assigned controller sched st0 ts))
   \<and> (activitySeq st0 p = Some s \<longrightarrow>
        orders_of p (assigned controller sched st0 ts)
          = [s + 1 .. s + int (length (orders_of p (assigned controller sched st0 ts)))]
        \<and> (\<forall>n\<in>set (orders_of p (assigned controller sched st0 ts)). s < n)
        \<and> activitySeq (final_state controller sched st0 ts) p
          = Some (s + int (length (orders_of p (assigned controller sched st0 ts)))))
   \<and> ((\<forall>t\<in>set ts. entered t) \<and> activitySeq st0 p = Some s
        \<and> distinct (top_level_orders st0 p) \<and> (\<forall>n\<in>set (top_level_orders st0 p). n \<le> s) \<longrightarrow>
        distinct (top_level_orders (final_state controller sched st0 ts) p)
        \<and> (\<forall>n\<in>set (top_level_orders (final_state controller sched st0 ts) p).
              n \<le> s + int (length (orders_of p (assigned controller sched st0 ts)))))"
proof -
  have one: "PullReqStore_UpdateActivitySeq st pr = (Inr prUpd, st1) \<longrightarrow>
      writeActivity controller st pr act =
        ((map_option (Errorf ''failed to create pull request activity: '')
            (fst (ActivityStore_Create st1 (act\<lparr>act_Order := pr_ActivitySeq prUpd\<rparr>))),
          prUpd, act\<lparr>act_Order := pr_ActivitySeq prUpd\<rparr>),
         snd (ActivityStore_Create st1 (act\<lparr>act_Order := pr_ActivitySeq prUpd\<rparr>)))
      \<and> activitySeq st (pr_ID pr) = Some (pr_ActivitySeq prUpd - 1)
      \<and> activitySeq st1 (pr_ID pr) = Some (pr_ActivitySeq prUpd)
      \<and> activitySeq (snd (writeActivity controller st pr act)) (pr_ID pr)
          = Some (pr_ActivitySeq prUpd)"
  proof
    assume ok: "PullReqStore_UpdateActivitySeq st pr = (Inr prUpd, st1)"
    from writeActivity_bumped[OF ok, of act] writeActivity_counter(1,2)[OF ok]
      writeActivity_counter(3)[OF ok, of act]
    show "writeActivity controller st pr act =
        ((map_option (Errorf ''failed to create pull request activity: '')
            (fst (ActivityStore_Create st1 (act\<lparr>act_Order := pr_ActivitySeq prUpd\<rparr>))),
          prUpd, act\<lparr>act_Order := pr_ActivitySeq prUpd\<rparr>),
         snd (ActivityStore_Create st1 (act\<lparr>act_Order := pr_ActivitySeq prUpd\<rparr>)))
      \<and> activitySeq st (pr_ID pr) = Some (pr_ActivitySeq prUpd - 1)
      \<and> activitySeq st1 (pr_ID pr) = Some (pr_ActivitySeq prUpd)
      \<and> activitySeq (snd (writeActivity controller st pr act)) (pr_ID pr)
          = Some (pr_ActivitySeq prUpd)"
      by (intro conjI)
  qed
  have none: "PullReqStore_UpdateActivitySeq st pr = (Inl e, st1) \<longrightarrow>
      writeActivity controller st pr act =
        ((Some (Errorf ''failed to get pull request activity number: '' e), pr, act), st1)
      \<and> activitySeq st1 (pr_ID pr) = activitySeq st (pr_ID pr)"
  proof
    assume f: "PullReqStore_UpdateActivitySeq st pr = (Inl e, st1)"
    then have "writeActivity controller st pr act =
        ((Some (Errorf ''failed to get pull request activity number: '' e), pr, act), st1)"
      by (simp add: writeActivity_def controller_def leaving_def)
    with activitySeq_rows[of st1 st "pr_ID pr"] UpdateActivitySeq_Inl[OF f]
    show "writeActivity controller st pr act =
        ((Some (Errorf ''failed to get pull request activity number: '' e), pr, act), st1)
      \<and> activitySeq st1 (pr_ID pr) = activitySeq st (pr_ID pr)" by simp
  qed
  have later: "case writeActivity controller st pr act of
        ((err, pr', act'), st2) \<Rightarrow>
          (case writeActivity controller (final_state controller sched st2 ts) pr2 act2 of
             ((err2, pr2', act2'), st4) \<Rightarrow>
               PullReqStore_UpdateActivitySeq st pr = (Inr prUpd, st1)
               \<and> PullReqStore_UpdateActivitySeq (final_state controller sched st2 ts) pr2
                   = (Inr prUpd2, st3)
               \<and> pr_ID pr2 = pr_ID pr \<longrightarrow>
               act_Order act' < act_Order act2')"
  proof -
    obtain err pr' act' st2 where w1: "writeActivity controller st pr act = ((err, pr', act'), st2)"
      by (metis prod.exhaust)
    obtain err2 pr2' act2' st4 where
      w2: "writeActivity controller (final_state controller sched st2 ts) pr2 act2
             = ((err2, pr2', act2'), st4)"
      by (metis prod.exhaust)
    have "act_Order act' < act_Order act2'"
      if b1: "PullReqStore_UpdateActivitySeq st pr = (Inr prUpd, st1)"
        and b2: "PullReqStore_UpdateActivitySeq (final_state controller sched st2 ts) pr2
                   = (Inr prUpd2, st3)"
        and same: "pr_ID pr2 = pr_ID pr"
    proof -
      from writeActivity_bumped[OF b1, of act] w1
      have o1: "act_Order act' = pr_ActivitySeq prUpd" by auto
      from writeActivity_counter(3)[OF b1, of act] w1
      have "activitySeq st2 (pr_ID pr) = Some (pr_ActivitySeq prUpd)" by simp
      from later_order_greater[OF this b2 same]
      have "pr_ActivitySeq prUpd < pr_ActivitySeq prUpd2" .
      moreover from writeActivity_bumped[OF b2, of act2] w2
      have "act_Order act2' = pr_ActivitySeq prUpd2" by auto
      ultimately show ?thesis using o1 by simp
    qed
    with w1 w2 show ?thesis by simp
  qed
  note bridge = writeActivity_as_run[of c st' pr act]
  note r = orders_run[of p sched st0 ts]
  from r have srt: "sorted_wrt (<) (orders_of p (assigned controller sched st0 ts))" by blast
  then have dis: "distinct (orders_of p (assigned controller sched st0 ts))"
    by (simp add: strict_sorted_iff)
  have ex: "activitySeq st0 p = Some s \<longrightarrow>
        orders_of p (assigned controller sched st0 ts)
          = [s + 1 .. s + int (length (orders_of p (assigned controller sched st0 ts)))]
        \<and> (\<forall>n\<in>set (orders_of p (assigned controller sched st0 ts)). s < n)
        \<and> activitySeq (final_state controller sched st0 ts) p
          = Some (s + int (length (orders_of p (assigned controller sched st0 ts))))"
  proof
    assume a: "activitySeq st0 p = Some s"
    with r have e: "orders_of p (assigned controller sched st0 ts)
          = [s + 1 .. s + int (length (orders_of p (assigned controller sched st0 ts)))]"
      and f: "activitySeq (final_state controller sched st0 ts) p
          = Some (s + int (length (orders_of p (assigned controller sched st0 ts))))"
      by blast+
    from upto_above[OF e] e f
    show "orders_of p (assigned controller sched st0 ts)
          = [s + 1 .. s + int (length (orders_of p (assigned controller sched st0 ts)))]
        \<and> (\<forall>n\<in>set (orders_of p (assigned controller sched st0 ts)). s < n)
        \<and> activitySeq (final_state controller sched st0 ts) p
          = Some (s + int (length (orders_of p (assigned controller sched st0 ts))))"
      by blast
  qed
  have rows: "(\<forall>t\<in>set ts. entered t) \<and> activitySeq st0 p = Some s
        \<and> distinct (top_level_orders st0 p) \<and> (\<forall>n\<in>set (top_level_orders st0 p). n \<le> s) \<longrightarrow>
        distinct (top_level_orders (final_state controller sched st0 ts) p)
        \<and> (\<forall>n\<in>set (top_level_orders (final_state controller sched st0 ts) p).
              n \<le> s + int (length (orders_of p (assigned controller sched st0 ts))))"
    using order_rows_run[of ts st0 p s sched] by blast
  from one none later bridge srt dis ex rows show ?thesis by (intro conjI)
qed

theorem writeActivity_orders_unique_increasing_witness:
  "PullReqStore_UpdateActivitySeq store0 pr1 =
     (Inr (pr1\<lparr>pr_ActivitySeq := 3, pr_Version := 1\<rparr>),
      store0\<lparr>pullreqs := [pr1\<lparr>pr_ActivitySeq := 3, pr_Version := 1\<rparr>]\<rparr>)
   \<and> writeActivity controller store0 pr1 noteA =
       ((None, pr1\<lparr>pr_ActivitySeq := 3, pr_Version := 1\<rparr>, noteA\<lparr>act_Order := 3\<rparr>),
        store0\<lparr>pullreqs := [pr1\<lparr>pr_ActivitySeq := 3, pr_Version := 1\<rparr>],
                activities := [comment5, system6, noteA\<lparr>act_Order := 3\<rparr>]\<rparr>)
   \<and> activitySeq store0 1 = Some 2
   \<and> activitySeq (snd (writeActivity controller store0 pr1 noteA)) 1 = Some 3
   \<and> PullReqStore_UpdateActivitySeq
         (final_state controller [0, 1, 1, 0] (snd (writeActivity controller store0 pr1 noteA))
            [Entered (WriteActivity pr1 noteA), Entered (WriteActivity pr1 noteB)]) pr1 =
       (Inr (pr1\<lparr>pr_ActivitySeq := 6, pr_Version := 4\<rparr>),
        store0\<lparr>pullreqs := [pr1\<lparr>pr_ActivitySeq := 6, pr_Version := 4\<rparr>],
                activities := [comment5, system6, noteA\<lparr>act_Order := 3\<rparr>,
                               noteB\<lparr>act_Order := 5\<rparr>, noteA\<lparr>act_Order := 4\<rparr>]\<rparr>)
   \<and> fst (writeActivity controller
            (final_state controller [0, 1, 1, 0] (snd (writeActivity controller store0 pr1 noteA))
               [Entered (WriteActivity pr1 noteA), Entered (WriteActivity pr1 noteB)])
            pr1 noteB) =
       (None, pr1\<lparr>pr_ActivitySeq := 6, pr_Version := 4\<rparr>, noteB\<lparr>act_Order := 6\<rparr>)
   \<and> run controller [0, 0] store0 [Entered (WriteActivity pr1 noteA)] =
       (snd (writeActivity controller store0 pr1 noteA),
        [Returned None (WriteActivity (pr1\<lparr>pr_ActivitySeq := 3, pr_Version := 1\<rparr>)
                         (noteA\<lparr>act_Order := 3\<rparr>))],
        [OrderAssigned 1 3])
   \<and> top_level_orders store0 1 = [1, 2]
   \<and> entered (Entered (WriteActivity pr1 noteA)) \<and> entered (Entered (WriteActivity pr1 noteB))
   \<and> orders_of 1 (assigned controller [0, 1, 1, 0] store0
       [Entered (WriteActivity pr1 noteA), Entered (WriteActivity pr1 noteB)]) = [3, 4]
   \<and> activitySeq (final_state controller [0, 1, 1, 0] store0
       [Entered (WriteActivity pr1 noteA), Entered (WriteActivity pr1 noteB)]) 1 = Some 4
   \<and> top_level_orders (final_state controller [0, 1, 1, 0] store0
       [Entered (WriteActivity pr1 noteA), Entered (WriteActivity pr1 noteB)]) 1 = [1, 2, 4, 3]"
  using writeActivity_orders_unique_increasing
          [where st = store0 and pr = pr1
             and prUpd = "pr1\<lparr>pr_ActivitySeq := 3, pr_Version := 1\<rparr>"
             and ?st1.0 = "store0\<lparr>pullreqs := [pr1\<lparr>pr_ActivitySeq := 3, pr_Version := 1\<rparr>]\<rparr>"
             and act = noteA and e = ErrConflict
             and sched = "[0, 1, 1, 0]"
             and ts = "[Entered (WriteActivity pr1 noteA), Entered (WriteActivity pr1 noteB)]"
             and ?pr2.0 = pr1 and ?act2.0 = noteB
             and ?prUpd2.0 = "pr1\<lparr>pr_ActivitySeq := 6, pr_Version := 4\<rparr>"
             and ?st3.0 = "store0\<lparr>pullreqs := [pr1\<lparr>pr_ActivitySeq := 6, pr_Version := 4\<rparr>],
                                  activities := [comment5, system6, noteA\<lparr>act_Order := 3\<rparr>,
                                                 noteB\<lparr>act_Order := 5\<rparr>,
                                                 noteA\<lparr>act_Order := 4\<rparr>]\<rparr>"
             and c = controller and st' = store0 and p = 1 and ?st0.0 = store0 and s = 2]
  by (simp add: eval_defs top_level_orders_def store_defs scenario_defs)

text \<open>
  Claim C2. \<^verbatim>\<open>writeActivity\<close> first calls \<^verbatim>\<open>UpdateActivitySeq\<close>. If that fails, the
  error is returned and no row is written. If it succeeds, \<^verbatim>\<open>Create\<close> is called in the
  state the bump left, with the activity carrying the new sequence value as its Order;
  on success the row persisted is that activity. If \<^verbatim>\<open>Create\<close> fails, the error is
  returned, no row is added, and the stored counter stays advanced (nothing rolls it
  back); every Order assigned afterwards for this pull request, by any calls under any
  schedule, is greater than the number consumed: it is never reused.
\<close>

theorem writeActivity_two_phase:
  "(PullReqStore_UpdateActivitySeq st pr = (Inl e, st1) \<longrightarrow>
      writeActivity controller st pr act =
        ((Some (Errorf ''failed to get pull request activity number: '' e), pr, act), st1)
      \<and> activities st1 = activities st \<and> pullreqs st1 = pullreqs st)
   \<and> (PullReqStore_UpdateActivitySeq st pr = (Inr prUpd, st1)
        \<and> ActivityStore_Create st1 (act\<lparr>act_Order := pr_ActivitySeq prUpd\<rparr>) = (None, st2) \<longrightarrow>
      writeActivity controller st pr act =
        ((None, prUpd, act\<lparr>act_Order := pr_ActivitySeq prUpd\<rparr>), st2)
      \<and> activities st2 = activities st @ [act\<lparr>act_Order := pr_ActivitySeq prUpd\<rparr>]
      \<and> activitySeq st (pr_ID pr) = Some (pr_ActivitySeq prUpd - 1)
      \<and> activitySeq st2 (pr_ID pr) = Some (pr_ActivitySeq prUpd))
   \<and> (PullReqStore_UpdateActivitySeq st pr = (Inr prUpd, st1)
        \<and> ActivityStore_Create st1 (act\<lparr>act_Order := pr_ActivitySeq prUpd\<rparr>) = (Some e, st2) \<longrightarrow>
      writeActivity controller st pr act =
        ((Some (Errorf ''failed to create pull request activity: '' e), prUpd,
          act\<lparr>act_Order := pr_ActivitySeq prUpd\<rparr>), st2)
      \<and> activities st2 = activities st
      \<and> activitySeq st (pr_ID pr) = Some (pr_ActivitySeq prUpd - 1)
      \<and> activitySeq st2 (pr_ID pr) = Some (pr_ActivitySeq prUpd)
      \<and> (\<forall>n\<in>set (orders_of (pr_ID pr) (assigned controller sched st2 ts)).
            pr_ActivitySeq prUpd < n))"
proof (intro conjI impI)
  assume f: "PullReqStore_UpdateActivitySeq st pr = (Inl e, st1)"
  then show "writeActivity controller st pr act =
        ((Some (Errorf ''failed to get pull request activity number: '' e), pr, act), st1)"
    by (simp add: writeActivity_def controller_def leaving_def)
  from UpdateActivitySeq_Inl[OF f]
  show "activities st1 = activities st" and "pullreqs st1 = pullreqs st" by simp_all
next
  assume a: "PullReqStore_UpdateActivitySeq st pr = (Inr prUpd, st1)
        \<and> ActivityStore_Create st1 (act\<lparr>act_Order := pr_ActivitySeq prUpd\<rparr>) = (None, st2)"
  then have ok: "PullReqStore_UpdateActivitySeq st pr = (Inr prUpd, st1)"
    and cr: "ActivityStore_Create st1 (act\<lparr>act_Order := pr_ActivitySeq prUpd\<rparr>) = (None, st2)"
    by simp_all
  from ok cr show "writeActivity controller st pr act =
        ((None, prUpd, act\<lparr>act_Order := pr_ActivitySeq prUpd\<rparr>), st2)"
    by (simp add: writeActivity_def controller_def leaving_def)
  from Create_rows(2)[OF cr] UpdateActivitySeq_Inr(3)[OF ok]
  show "activities st2 = activities st @ [act\<lparr>act_Order := pr_ActivitySeq prUpd\<rparr>]" by simp
  from UpdateActivitySeq_Inr(1)[OF ok]
  show "activitySeq st (pr_ID pr) = Some (pr_ActivitySeq prUpd - 1)" by auto
  from UpdateActivitySeq_Inr(1)[OF ok] activitySeq_rows[OF Create_rows(1)[OF cr], of "pr_ID pr"]
  show "activitySeq st2 (pr_ID pr) = Some (pr_ActivitySeq prUpd)" by auto
next
  assume a: "PullReqStore_UpdateActivitySeq st pr = (Inr prUpd, st1)
        \<and> ActivityStore_Create st1 (act\<lparr>act_Order := pr_ActivitySeq prUpd\<rparr>) = (Some e, st2)"
  then have ok: "PullReqStore_UpdateActivitySeq st pr = (Inr prUpd, st1)"
    and cr: "ActivityStore_Create st1 (act\<lparr>act_Order := pr_ActivitySeq prUpd\<rparr>) = (Some e, st2)"
    by simp_all
  from ok cr show "writeActivity controller st pr act =
        ((Some (Errorf ''failed to create pull request activity: '' e), prUpd,
          act\<lparr>act_Order := pr_ActivitySeq prUpd\<rparr>), st2)"
    by (simp add: writeActivity_def controller_def leaving_def)
  from Create_rows(2)[OF cr] UpdateActivitySeq_Inr(3)[OF ok]
  show "activities st2 = activities st" by simp
  from UpdateActivitySeq_Inr(1)[OF ok]
  show "activitySeq st (pr_ID pr) = Some (pr_ActivitySeq prUpd - 1)" by auto
  from UpdateActivitySeq_Inr(1)[OF ok] activitySeq_rows[OF Create_rows(1)[OF cr], of "pr_ID pr"]
  show adv: "activitySeq st2 (pr_ID pr) = Some (pr_ActivitySeq prUpd)" by auto
  from orders_run[of "pr_ID pr" sched st2 ts] adv
  have "orders_of (pr_ID pr) (assigned controller sched st2 ts)
          = [pr_ActivitySeq prUpd + 1 ..
             pr_ActivitySeq prUpd
               + int (length (orders_of (pr_ID pr) (assigned controller sched st2 ts)))]"
    by blast
  from upto_above[OF this]
  show "\<forall>n\<in>set (orders_of (pr_ID pr) (assigned controller sched st2 ts)).
            pr_ActivitySeq prUpd < n" .
qed

theorem writeActivity_two_phase_witness:
  "PullReqStore_UpdateActivitySeq (store0\<lparr>faults := [None, Some (OtherError ''disk full'')]\<rparr>) pr1 =
     (Inr (pr1\<lparr>pr_ActivitySeq := 3, pr_Version := 1\<rparr>),
      store0\<lparr>pullreqs := [pr1\<lparr>pr_ActivitySeq := 3, pr_Version := 1\<rparr>],
              faults := [Some (OtherError ''disk full'')]\<rparr>)
   \<and> ActivityStore_Create
        (store0\<lparr>pullreqs := [pr1\<lparr>pr_ActivitySeq := 3, pr_Version := 1\<rparr>],
                faults := [Some (OtherError ''disk full'')]\<rparr>)
        (noteA\<lparr>act_Order := 3\<rparr>) =
     (Some (OtherError ''disk full''),
      store0\<lparr>pullreqs := [pr1\<lparr>pr_ActivitySeq := 3, pr_Version := 1\<rparr>]\<rparr>)
   \<and> writeActivity controller (store0\<lparr>faults := [None, Some (OtherError ''disk full'')]\<rparr>)
        pr1 noteA =
     ((Some (Errorf ''failed to create pull request activity: '' (OtherError ''disk full'')),
       pr1\<lparr>pr_ActivitySeq := 3, pr_Version := 1\<rparr>, noteA\<lparr>act_Order := 3\<rparr>),
      store0\<lparr>pullreqs := [pr1\<lparr>pr_ActivitySeq := 3, pr_Version := 1\<rparr>]\<rparr>)
   \<and> orders_of 1 (assigned controller [0, 0]
        (store0\<lparr>pullreqs := [pr1\<lparr>pr_ActivitySeq := 3, pr_Version := 1\<rparr>]\<rparr>)
        [Entered (WriteActivity pr1 noteB)]) = [4]
   \<and> writeActivity controller (store0\<lparr>faults := [Some ErrConflict]\<rparr>) pr1 noteA =
     ((Some (Errorf ''failed to get pull request activity number: '' ErrConflict), pr1, noteA),
      store0)
   \<and> writeActivity controller store0 pr1 noteA =
     ((None, pr1\<lparr>pr_ActivitySeq := 3, pr_Version := 1\<rparr>, noteA\<lparr>act_Order := 3\<rparr>),
      store0\<lparr>pullreqs := [pr1\<lparr>pr_ActivitySeq := 3, pr_Version := 1\<rparr>],
              activities := [comment5, system6, noteA\<lparr>act_Order := 3\<rparr>]\<rparr>)"
  using writeActivity_two_phase
          [of "store0\<lparr>faults := [None, Some (OtherError ''disk full'')]\<rparr>" pr1
              "OtherError ''disk full''"
              "store0\<lparr>pullreqs := [pr1\<lparr>pr_ActivitySeq := 3, pr_Version := 1\<rparr>],
                      faults := [Some (OtherError ''disk full'')]\<rparr>"
              noteA "pr1\<lparr>pr_ActivitySeq := 3, pr_Version := 1\<rparr>"
              "store0\<lparr>pullreqs := [pr1\<lparr>pr_ActivitySeq := 3, pr_Version := 1\<rparr>]\<rparr>"
              "[0, 0]" "[Entered (WriteActivity pr1 noteB)]"]
        writeActivity_two_phase
          [of "store0\<lparr>faults := [Some ErrConflict]\<rparr>" pr1 ErrConflict store0 noteA
              pr1 store0 "[]" "[]"]
        writeActivity_two_phase
          [of store0 pr1 ErrConflict
              "store0\<lparr>pullreqs := [pr1\<lparr>pr_ActivitySeq := 3, pr_Version := 1\<rparr>]\<rparr>"
              noteA "pr1\<lparr>pr_ActivitySeq := 3, pr_Version := 1\<rparr>"
              "store0\<lparr>pullreqs := [pr1\<lparr>pr_ActivitySeq := 3, pr_Version := 1\<rparr>],
                      activities := [comment5, system6, noteA\<lparr>act_Order := 3\<rparr>]\<rparr>"
              "[]" "[]"]
  by (simp add: eval_defs store_defs scenario_defs)

text \<open>
  Claim C3. A call of \<^verbatim>\<open>writeReplyActivity\<close> whose sequence bump succeeds returns the
  reply with the Order of its parent (the Order of the parent's stored row, which is the
  Order of the caller's updated parent record) and, as SubOrder, the parent's
  \<^verbatim>\<open>ReplySeq\<close> right after the increment (one more than before); the state the call
  returns keeps the counter there, whether the row write succeeds or fails. A call whose
  bump fails assigns nothing and leaves the counter. A later reply under the same
  parent, after any calls of other instances under any schedule, gets a greater
  SubOrder. Served without interruption, a task is the call: \<open>run\<close> on the schedule
  \<open>[0, 0]\<close> gives the result, the objects and the state of \<^verbatim>\<open>writeReplyActivity\<close>.

  For every parent \<open>q\<close> and every schedule, the SubOrder values assigned under \<open>q\<close> are
  strictly increasing and pairwise distinct; when the stored parent has reply counter
  \<open>s\<close> they are exactly \<open>s + 1, s + 2, ...\<close>, so they start from 1 under a parent whose
  counter is still 0. For the rows: when the calls are the controller's own and the
  stored replies under \<open>q\<close> have pairwise distinct SubOrders, none above the counter,
  the same holds after any schedule.
\<close>

theorem writeReplyActivity_suborders_unique_increasing:
  "(ActivityStore_UpdateReplySeq st parent = (Inr parentUpd, st1) \<longrightarrow>
      writeReplyActivity controller st parent act =
        ((map_option (Errorf ''failed to create pull request activity: '')
            (fst (ActivityStore_Create st1
                    (act\<lparr>act_Order := act_Order parentUpd,
                         act_SubOrder := act_ReplySeq parentUpd\<rparr>))),
          parentUpd,
          act\<lparr>act_Order := act_Order parentUpd, act_SubOrder := act_ReplySeq parentUpd\<rparr>),
         snd (ActivityStore_Create st1
                (act\<lparr>act_Order := act_Order parentUpd,
                     act_SubOrder := act_ReplySeq parentUpd\<rparr>)))
      \<and> (\<exists>row. find (\<lambda>a. act_ID a = act_ID parent) (activities st) = Some row
                 \<and> act_Order parentUpd = act_Order row)
      \<and> replySeq st (act_ID parent) = Some (act_ReplySeq parentUpd - 1)
      \<and> replySeq st1 (act_ID parent) = Some (act_ReplySeq parentUpd)
      \<and> replySeq (snd (writeReplyActivity controller st parent act)) (act_ID parent)
          = Some (act_ReplySeq parentUpd))
   \<and> (ActivityStore_UpdateReplySeq st parent = (Inl e, st1) \<longrightarrow>
      writeReplyActivity controller st parent act =
        ((Some (Errorf ''failed to get pull request activity number: '' e), parent, act), st1)
      \<and> replySeq st1 (act_ID parent) = replySeq st (act_ID parent))
   \<and> (case writeReplyActivity controller st parent act of
        ((err, parent', act'), st2) \<Rightarrow>
          (case writeReplyActivity controller (final_state controller sched st2 ts)
                  parent2 act2 of
             ((err2, parent2', act2'), st4) \<Rightarrow>
               ActivityStore_UpdateReplySeq st parent = (Inr parentUpd, st1)
               \<and> ActivityStore_UpdateReplySeq (final_state controller sched st2 ts) parent2
                   = (Inr parentUpd2, st3)
               \<and> act_ID parent2 = act_ID parent \<longrightarrow>
               act_SubOrder act' < act_SubOrder act2'))
   \<and> run c [0, 0] st' [Entered (WriteReplyActivity parent act)] =
       (case writeReplyActivity c st' parent act of
          ((err, parent', act'), st2) \<Rightarrow>
            (st2, [Returned err (WriteReplyActivity parent' act')],
             (case activityStore_UpdateReplySeq c st' parent of
                ((Inl e, parent0), st1) \<Rightarrow> []
              | ((Inr parentUpd, parent0), st1) \<Rightarrow>
                  [SubOrderAssigned (act_ID parent) (act_Order parentUpd)
                     (act_ReplySeq parentUpd)])))
   \<and> sorted_wrt (<) (suborders_of q (assigned controller sched st0 ts))
   \<and> distinct (suborders_of q (assigned controller sched st0 ts))
   \<and> (replySeq st0 q = Some s \<longrightarrow>
        suborders_of q (assigned controller sched st0 ts)
          = [s + 1 .. s + int (length (suborders_of q (assigned controller sched st0 ts)))]
        \<and> replySeq (final_state controller sched st0 ts) q
          = Some (s + int (length (suborders_of q (assigned controller sched st0 ts)))))
   \<and> (replySeq st0 q = Some 0 \<longrightarrow>
        suborders_of q (assigned controller sched st0 ts)
          = [1 .. int (length (suborders_of q (assigned controller sched st0 ts)))])
   \<and> ((\<forall>t\<in>set ts. entered t) \<and> replySeq st0 q = Some s
        \<and> distinct (reply_suborders st0 q) \<and> (\<forall>n\<in>set (reply_suborders st0 q). n \<le> s) \<longrightarrow>
        distinct (reply_suborders (final_state controller sched st0 ts) q)
        \<and> (\<forall>n\<in>set (reply_suborders (final_state controller sched st0 ts) q).
              n \<le> s + int (length (suborders_of q (assigned controller sched st0 ts)))))"
proof -
  have one: "ActivityStore_UpdateReplySeq st parent = (Inr parentUpd, st1) \<longrightarrow>
      writeReplyActivity controller st parent act =
        ((map_option (Errorf ''failed to create pull request activity: '')
            (fst (ActivityStore_Create st1
                    (act\<lparr>act_Order := act_Order parentUpd,
                         act_SubOrder := act_ReplySeq parentUpd\<rparr>))),
          parentUpd,
          act\<lparr>act_Order := act_Order parentUpd, act_SubOrder := act_ReplySeq parentUpd\<rparr>),
         snd (ActivityStore_Create st1
                (act\<lparr>act_Order := act_Order parentUpd,
                     act_SubOrder := act_ReplySeq parentUpd\<rparr>)))
      \<and> (\<exists>row. find (\<lambda>a. act_ID a = act_ID parent) (activities st) = Some row
                 \<and> act_Order parentUpd = act_Order row)
      \<and> replySeq st (act_ID parent) = Some (act_ReplySeq parentUpd - 1)
      \<and> replySeq st1 (act_ID parent) = Some (act_ReplySeq parentUpd)
      \<and> replySeq (snd (writeReplyActivity controller st parent act)) (act_ID parent)
          = Some (act_ReplySeq parentUpd)"
  proof
    assume ok: "ActivityStore_UpdateReplySeq st parent = (Inr parentUpd, st1)"
    from writeReplyActivity_bumped[OF ok, of act] UpdateReplySeq_Inr(5)[OF ok]
      writeReplyActivity_counter(1,2)[OF ok] writeReplyActivity_counter(3)[OF ok, of act]
    show "writeReplyActivity controller st parent act =
        ((map_option (Errorf ''failed to create pull request activity: '')
            (fst (ActivityStore_Create st1
                    (act\<lparr>act_Order := act_Order parentUpd,
                         act_SubOrder := act_ReplySeq parentUpd\<rparr>))),
          parentUpd,
          act\<lparr>act_Order := act_Order parentUpd, act_SubOrder := act_ReplySeq parentUpd\<rparr>),
         snd (ActivityStore_Create st1
                (act\<lparr>act_Order := act_Order parentUpd,
                     act_SubOrder := act_ReplySeq parentUpd\<rparr>)))
      \<and> (\<exists>row. find (\<lambda>a. act_ID a = act_ID parent) (activities st) = Some row
                 \<and> act_Order parentUpd = act_Order row)
      \<and> replySeq st (act_ID parent) = Some (act_ReplySeq parentUpd - 1)
      \<and> replySeq st1 (act_ID parent) = Some (act_ReplySeq parentUpd)
      \<and> replySeq (snd (writeReplyActivity controller st parent act)) (act_ID parent)
          = Some (act_ReplySeq parentUpd)"
      by (intro conjI)
  qed
  have none: "ActivityStore_UpdateReplySeq st parent = (Inl e, st1) \<longrightarrow>
      writeReplyActivity controller st parent act =
        ((Some (Errorf ''failed to get pull request activity number: '' e), parent, act), st1)
      \<and> replySeq st1 (act_ID parent) = replySeq st (act_ID parent)"
  proof
    assume f: "ActivityStore_UpdateReplySeq st parent = (Inl e, st1)"
    then have "writeReplyActivity controller st parent act =
        ((Some (Errorf ''failed to get pull request activity number: '' e), parent, act), st1)"
      by (simp add: writeReplyActivity_def controller_def leaving_def)
    with replySeq_rows[of st1 st "act_ID parent"] UpdateReplySeq_Inl[OF f]
    show "writeReplyActivity controller st parent act =
        ((Some (Errorf ''failed to get pull request activity number: '' e), parent, act), st1)
      \<and> replySeq st1 (act_ID parent) = replySeq st (act_ID parent)" by simp
  qed
  have later: "case writeReplyActivity controller st parent act of
        ((err, parent', act'), st2) \<Rightarrow>
          (case writeReplyActivity controller (final_state controller sched st2 ts)
                  parent2 act2 of
             ((err2, parent2', act2'), st4) \<Rightarrow>
               ActivityStore_UpdateReplySeq st parent = (Inr parentUpd, st1)
               \<and> ActivityStore_UpdateReplySeq (final_state controller sched st2 ts) parent2
                   = (Inr parentUpd2, st3)
               \<and> act_ID parent2 = act_ID parent \<longrightarrow>
               act_SubOrder act' < act_SubOrder act2')"
  proof -
    obtain err parent' act' st2 where
      w1: "writeReplyActivity controller st parent act = ((err, parent', act'), st2)"
      by (metis prod.exhaust)
    obtain err2 parent2' act2' st4 where
      w2: "writeReplyActivity controller (final_state controller sched st2 ts) parent2 act2
             = ((err2, parent2', act2'), st4)"
      by (metis prod.exhaust)
    have "act_SubOrder act' < act_SubOrder act2'"
      if b1: "ActivityStore_UpdateReplySeq st parent = (Inr parentUpd, st1)"
        and b2: "ActivityStore_UpdateReplySeq (final_state controller sched st2 ts) parent2
                   = (Inr parentUpd2, st3)"
        and same: "act_ID parent2 = act_ID parent"
    proof -
      from writeReplyActivity_bumped[OF b1, of act] w1
      have o1: "act_SubOrder act' = act_ReplySeq parentUpd" by auto
      from writeReplyActivity_counter(3)[OF b1, of act] w1
      have "replySeq st2 (act_ID parent) = Some (act_ReplySeq parentUpd)" by simp
      from later_suborder_greater[OF this b2 same]
      have "act_ReplySeq parentUpd < act_ReplySeq parentUpd2" .
      moreover from writeReplyActivity_bumped[OF b2, of act2] w2
      have "act_SubOrder act2' = act_ReplySeq parentUpd2" by auto
      ultimately show ?thesis using o1 by simp
    qed
    with w1 w2 show ?thesis by simp
  qed
  note bridge = writeReplyActivity_as_run[of c st' parent act]
  note r = suborders_run[of q sched st0 ts]
  from r have srt: "sorted_wrt (<) (suborders_of q (assigned controller sched st0 ts))" by blast
  then have dis: "distinct (suborders_of q (assigned controller sched st0 ts))"
    by (simp add: strict_sorted_iff)
  from r have ex: "replySeq st0 q = Some s \<longrightarrow>
        suborders_of q (assigned controller sched st0 ts)
          = [s + 1 .. s + int (length (suborders_of q (assigned controller sched st0 ts)))]
        \<and> replySeq (final_state controller sched st0 ts) q
          = Some (s + int (length (suborders_of q (assigned controller sched st0 ts))))"
    by blast
  have zero: "replySeq st0 q = Some 0 \<longrightarrow>
        suborders_of q (assigned controller sched st0 ts)
          = [1 .. int (length (suborders_of q (assigned controller sched st0 ts)))]"
  proof
    assume "replySeq st0 q = Some 0"
    with r have "suborders_of q (assigned controller sched st0 ts)
          = [0 + 1 .. 0 + int (length (suborders_of q (assigned controller sched st0 ts)))]"
      by blast
    then show "suborders_of q (assigned controller sched st0 ts)
          = [1 .. int (length (suborders_of q (assigned controller sched st0 ts)))]"
      by simp
  qed
  have rows: "(\<forall>t\<in>set ts. entered t) \<and> replySeq st0 q = Some s
        \<and> distinct (reply_suborders st0 q) \<and> (\<forall>n\<in>set (reply_suborders st0 q). n \<le> s) \<longrightarrow>
        distinct (reply_suborders (final_state controller sched st0 ts) q)
        \<and> (\<forall>n\<in>set (reply_suborders (final_state controller sched st0 ts) q).
              n \<le> s + int (length (suborders_of q (assigned controller sched st0 ts))))"
    using suborder_rows_run[of ts st0 q s sched] by blast
  from one none later bridge srt dis ex zero rows show ?thesis by (intro conjI)
qed

theorem writeReplyActivity_suborders_unique_increasing_witness:
  "ActivityStore_UpdateReplySeq store0 comment5 =
     (Inr (comment5\<lparr>act_ReplySeq := 1, act_Version := 1\<rparr>),
      store0\<lparr>activities := [comment5\<lparr>act_ReplySeq := 1, act_Version := 1\<rparr>, system6]\<rparr>)
   \<and> writeReplyActivity controller store0 comment5 replyA =
       ((None, comment5\<lparr>act_ReplySeq := 1, act_Version := 1\<rparr>,
         replyA\<lparr>act_Order := 1, act_SubOrder := 1\<rparr>),
        store0\<lparr>activities := [comment5\<lparr>act_ReplySeq := 1, act_Version := 1\<rparr>, system6,
                                replyA\<lparr>act_Order := 1, act_SubOrder := 1\<rparr>]\<rparr>)
   \<and> replySeq store0 5 = Some 0
   \<and> replySeq (snd (writeReplyActivity controller store0 comment5 replyA)) 5 = Some 1
   \<and> ActivityStore_UpdateReplySeq
         (final_state controller [0, 1, 1, 0]
            (snd (writeReplyActivity controller store0 comment5 replyA))
            [Entered (WriteReplyActivity comment5 replyA),
             Entered (WriteReplyActivity comment5 replyB)]) comment5 =
       (Inr (comment5\<lparr>act_ReplySeq := 4, act_Version := 4\<rparr>),
        store0\<lparr>activities :=
                  [comment5\<lparr>act_ReplySeq := 4, act_Version := 4\<rparr>, system6,
                   replyA\<lparr>act_Order := 1, act_SubOrder := 1\<rparr>,
                   replyB\<lparr>act_Order := 1, act_SubOrder := 3\<rparr>,
                   replyA\<lparr>act_Order := 1, act_SubOrder := 2\<rparr>]\<rparr>)
   \<and> fst (writeReplyActivity controller
            (final_state controller [0, 1, 1, 0]
               (snd (writeReplyActivity controller store0 comment5 replyA))
               [Entered (WriteReplyActivity comment5 replyA),
                Entered (WriteReplyActivity comment5 replyB)])
            comment5 replyB) =
       (None, comment5\<lparr>act_ReplySeq := 4, act_Version := 4\<rparr>,
        replyB\<lparr>act_Order := 1, act_SubOrder := 4\<rparr>)
   \<and> run controller [0, 0] store0 [Entered (WriteReplyActivity comment5 replyA)] =
       (snd (writeReplyActivity controller store0 comment5 replyA),
        [Returned None (WriteReplyActivity (comment5\<lparr>act_ReplySeq := 1, act_Version := 1\<rparr>)
                         (replyA\<lparr>act_Order := 1, act_SubOrder := 1\<rparr>))],
        [SubOrderAssigned 5 1 1])
   \<and> reply_suborders store0 5 = []
   \<and> entered (Entered (WriteReplyActivity comment5 replyA))
   \<and> entered (Entered (WriteReplyActivity comment5 replyB))
   \<and> suborders_of 5 (assigned controller [0, 1, 1, 0] store0
       [Entered (WriteReplyActivity comment5 replyA),
        Entered (WriteReplyActivity comment5 replyB)]) = [1, 2]
   \<and> reply_suborders (final_state controller [0, 1, 1, 0] store0
       [Entered (WriteReplyActivity comment5 replyA),
        Entered (WriteReplyActivity comment5 replyB)]) 5 = [2, 1]"
  using writeReplyActivity_suborders_unique_increasing
          [where st = store0 and parent = comment5
             and parentUpd = "comment5\<lparr>act_ReplySeq := 1, act_Version := 1\<rparr>"
             and ?st1.0 = "store0\<lparr>activities :=
                                    [comment5\<lparr>act_ReplySeq := 1, act_Version := 1\<rparr>, system6]\<rparr>"
             and act = replyA and e = ErrConflict
             and sched = "[0, 1, 1, 0]"
             and ts = "[Entered (WriteReplyActivity comment5 replyA),
                        Entered (WriteReplyActivity comment5 replyB)]"
             and ?parent2.0 = comment5 and ?act2.0 = replyB
             and ?parentUpd2.0 = "comment5\<lparr>act_ReplySeq := 4, act_Version := 4\<rparr>"
             and ?st3.0 = "store0\<lparr>activities :=
                  [comment5\<lparr>act_ReplySeq := 4, act_Version := 4\<rparr>, system6,
                   replyA\<lparr>act_Order := 1, act_SubOrder := 1\<rparr>,
                   replyB\<lparr>act_Order := 1, act_SubOrder := 3\<rparr>,
                   replyA\<lparr>act_Order := 1, act_SubOrder := 2\<rparr>]\<rparr>"
             and c = controller and st' = store0 and q = 5 and ?st0.0 = store0 and s = 0]
  by (simp add: eval_defs reply_suborders_def store_defs scenario_defs)

text \<open>
  Claim C4, as amended. When the store serves the query and an open pull request exists
  for the tuple (target repository, source repository, source branch, target branch),
  \<^verbatim>\<open>checkIfAlreadyExists\<close> fails with the error built by \<^verbatim>\<open>usererror.BadRequest\<close>, of
  the Validation class, whose payload carries the type "pr already exists" and the
  Number of an open pull request of that tuple. Only open requests count: when none of
  the requests of the tuple is open (the earlier one is closed, say) the check passes.
\<close>

theorem checkIfAlreadyExists_open_duplicate:
  "fst (next_fault st) = None \<longrightarrow>
     (open_duplicates st targetRepoID sourceRepoID targetBranch sourceBranch \<noteq> [] \<longrightarrow>
        (\<exists>r\<in>set (open_duplicates st targetRepoID sourceRepoID targetBranch sourceBranch).
           fst (checkIfAlreadyExists controller st targetRepoID sourceRepoID targetBranch
                  sourceBranch) =
             Some (BadRequest ''a pull request for this target and source branch already exists''
                     [(''type'', AnyString ''pr already exists''),
                      (''number'', AnyInt (pr_Number r))]))
        \<and> map_option class_of
             (fst (checkIfAlreadyExists controller st targetRepoID sourceRepoID targetBranch
                     sourceBranch)) = Some Validation)
     \<and> (open_duplicates st targetRepoID sourceRepoID targetBranch sourceBranch = [] \<longrightarrow>
          fst (checkIfAlreadyExists controller st targetRepoID sourceRepoID targetBranch
                 sourceBranch) = None)"
proof (intro impI conjI)
  assume nf: "fst (next_fault st) = None"
  let ?M = "open_duplicates st targetRepoID sourceRepoID targetBranch sourceBranch"
  note r = checkIfAlreadyExists_served[OF nf, of targetRepoID sourceRepoID targetBranch sourceBranch]
  {
    assume ne: "?M \<noteq> []"
    from hd_sort_key_Min(2)[OF ne, of pr_Number] r ne
    show "\<exists>r\<in>set ?M.
           fst (checkIfAlreadyExists controller st targetRepoID sourceRepoID targetBranch
                  sourceBranch) =
             Some (BadRequest ''a pull request for this target and source branch already exists''
                     [(''type'', AnyString ''pr already exists''),
                      (''number'', AnyInt (pr_Number r))])"
      by auto
    from r ne
    show "map_option class_of
             (fst (checkIfAlreadyExists controller st targetRepoID sourceRepoID targetBranch
                     sourceBranch)) = Some Validation"
      by simp
  }
  {
    assume "?M = []"
    with r show "fst (checkIfAlreadyExists controller st targetRepoID sourceRepoID targetBranch
                 sourceBranch) = None"
      by simp
  }
qed

theorem checkIfAlreadyExists_open_duplicate_witness:
  "fst (next_fault store0) = None
   \<and> open_duplicates store0 10 10 ''main'' ''feature'' = [pr1]
   \<and> fst (checkIfAlreadyExists controller store0 10 10 ''main'' ''feature'') =
       Some (BadRequest ''a pull request for this target and source branch already exists''
               [(''type'', AnyString ''pr already exists''), (''number'', AnyInt 1)])
   \<and> open_duplicates (store0\<lparr>pullreqs := [pr1\<lparr>pr_State := PullReqStateClosed\<rparr>]\<rparr>)
         10 10 ''main'' ''feature'' = []
   \<and> fst (checkIfAlreadyExists controller
            (store0\<lparr>pullreqs := [pr1\<lparr>pr_State := PullReqStateClosed\<rparr>]\<rparr>)
            10 10 ''main'' ''feature'') = None"
  using checkIfAlreadyExists_open_duplicate [of store0 10 10 "''main''" "''feature''"]
        checkIfAlreadyExists_open_duplicate
          [of "store0\<lparr>pullreqs := [pr1\<lparr>pr_State := PullReqStateClosed\<rparr>]\<rparr>"
              10 10 "''main''" "''feature''"]
  by (simp add: open_duplicates_def checkIfAlreadyExists_def matches_def sorted_by_def
        store_defs scenario_defs)

text \<open>
  The claim as first stated asks for an error of the Conflict class. On the scenario,
  where pull request number 1 is open for the tuple, the error returned is the
  bad-request error, and its class is not Conflict.
\<close>

theorem checkIfAlreadyExists_conflict_counterexample:
  "fst (checkIfAlreadyExists controller store0 10 10 ''main'' ''feature'') =
     Some (BadRequest ''a pull request for this target and source branch already exists''
             [(''type'', AnyString ''pr already exists''), (''number'', AnyInt 1)])
   \<and> class_of (BadRequest ''a pull request for this target and source branch already exists''
                 [(''type'', AnyString ''pr already exists''), (''number'', AnyInt 1)])
       \<noteq> Conflict"
  by (simp add: checkIfAlreadyExists_def matches_def sorted_by_def store_defs scenario_defs)

text \<open>
  Claim C5. An empty branch name is rejected with a bad-request (Validation) error and
  the state is returned untouched, whatever the resolver is: the resolver is not
  consulted. For a non-empty name the resolver is called once: the state returned is the
  state after that one call. If its error is (or wraps) \<^verbatim>\<open>gitrpc.ErrNotFound\<close>, the
  result is the bad-request error "branch ... does not exist in the repository ..."; any
  other error is wrapped by \<^verbatim>\<open>fmt.Errorf\<close> and returned with its cause kept, an
  Internal error that is not of the Validation class, and no second call is made.
\<close>

theorem verifyBranchExistence_error_mapping:
  "verifyBranchExistence c st repo [] = (Some (BadRequest ''branch name can't be empty'' []), st)
   \<and> (branch \<noteq> []
        \<and> gitRPCClient_GetRef c st
            \<lparr>grp_ReadParams = CreateRPCReadParams repo, grp_Name = branch,
             grp_Type = RefTypeBranch\<rparr> = (Some err, st')
        \<and> errors_Is err ErrNotFound \<longrightarrow>
      verifyBranchExistence c st repo branch =
        (Some (BadRequest
           (''branch '' @ branch @ '' does not exist in the repository '' @ repo_UID repo) []), st'))
   \<and> (branch \<noteq> []
        \<and> gitRPCClient_GetRef c st
            \<lparr>grp_ReadParams = CreateRPCReadParams repo, grp_Name = branch,
             grp_Type = RefTypeBranch\<rparr> = (Some err, st')
        \<and> \<not> errors_Is err ErrNotFound \<longrightarrow>
      verifyBranchExistence c st repo branch =
        (Some (Errorf (''failed to check existence of the branch '' @ branch
                        @ '' in the repository '' @ repo_UID repo @ '': '') err), st')
      \<and> map_option class_of (fst (verifyBranchExistence c st repo branch)) = Some Internal
      \<and> errors_Is (Errorf (''failed to check existence of the branch '' @ branch
                        @ '' in the repository '' @ repo_UID repo @ '': '') err) err)"
  by (simp add: verifyBranchExistence_def errors_Is_refl)

theorem verifyBranchExistence_error_mapping_witness:
  "verifyBranchExistence controller store0 repo1 [] =
     (Some (BadRequest ''branch name can't be empty'' []), store0)
   \<and> gitRPCClient_GetRef controller store0
         \<lparr>grp_ReadParams = CreateRPCReadParams repo1, grp_Name = ''gone'',
          grp_Type = RefTypeBranch\<rparr> = (Some ErrNotFound, store0)
   \<and> verifyBranchExistence controller store0 repo1 ''gone'' =
       (Some (BadRequest ''branch gone does not exist in the repository r1'' []), store0)
   \<and> gitRPCClient_GetRef controller (store0\<lparr>faults := [Some (OtherError ''network down'')]\<rparr>)
         \<lparr>grp_ReadParams = CreateRPCReadParams repo1, grp_Name = ''main'',
          grp_Type = RefTypeBranch\<rparr> = (Some (OtherError ''network down''), store0)
   \<and> verifyBranchExistence controller (store0\<lparr>faults := [Some (OtherError ''network down'')]\<rparr>)
       repo1 ''main'' =
       (Some (Errorf ''failed to check existence of the branch main in the repository r1: ''
                (OtherError ''network down'')), store0)
   \<and> verifyBranchExistence controller store0 repo1 ''main'' = (None, store0)"
  using verifyBranchExistence_error_mapping
          [of controller store0 repo1 "''gone''" ErrNotFound store0]
        verifyBranchExistence_error_mapping
          [of controller "store0\<lparr>faults := [Some (OtherError ''network down'')]\<rparr>" repo1
              "''main''" "OtherError ''network down''" store0]
  by (simp add: verifyBranchExistence_def store_defs scenario_defs)

text \<open>
  Claim C6. When the comment found is of the System kind, the check fails for every
  session, the one of the activity's author included; when the comment is a live
  activity of the pull request (the not-found check hands it on), the failure is the
  bad-request (Validation) error "Can't update a comment created by the system.".
\<close>

theorem getCommentCheckEditAccess_system_kind:
  assumes "0 < commentID"
    and "activityStore_Find c st commentID = ((Some comment, None), st')"
    and "act_Kind comment = PullReqActivityKindSystem"
  shows "(\<exists>e. getCommentCheckEditAccess c st session pr commentID = (Inl e, st'))
    \<and> (act_Deleted comment = None \<and> act_RepoID comment = pr_TargetRepoID pr
          \<and> act_PullReqID comment = pr_ID pr \<longrightarrow>
        getCommentCheckEditAccess c st session pr commentID =
          (Inl (BadRequest ''Can't update a comment created by the system.'' []), st')
        \<and> class_of (BadRequest ''Can't update a comment created by the system.'' []) = Validation)"
  using assms by (simp add: getCommentCheckEditAccess_def)

theorem getCommentCheckEditAccess_system_kind_witness:
  "activityStore_Find controller store0 6 = ((Some system6, None), store0)
   \<and> act_Kind system6 = PullReqActivityKindSystem
   \<and> act_CreatedBy system6 = principal_ID (session_Principal session7)
   \<and> getCommentCheckEditAccess controller store0 session7 pr1 6 =
     (Inl (BadRequest ''Can't update a comment created by the system.'' []), store0)"
  using getCommentCheckEditAccess_system_kind
          [of 6 controller store0 system6 store0 session7 pr1]
  by (simp add: store_defs scenario_defs)

text \<open>
  Claim C7. When the principal of the session is not the comment's \<^verbatim>\<open>CreatedBy\<close>, the
  check fails; for a live activity of the pull request the failure is a bad-request
  (Validation) error, "Only own comments may be updated." unless the comment is of the
  System kind. The only store call made is the one \<^verbatim>\<open>Find\<close>: the state returned is
  the state after it, and on the stores of the specification no row of either table
  changes, on any path.
\<close>

theorem getCommentCheckEditAccess_not_author:
  assumes "0 < commentID"
    and "activityStore_Find c st commentID = ((Some comment, None), st')"
    and "act_CreatedBy comment \<noteq> principal_ID (session_Principal session)"
  shows "(\<exists>e. getCommentCheckEditAccess c st session pr commentID = (Inl e, st'))
    \<and> (act_Deleted comment = None \<and> act_RepoID comment = pr_TargetRepoID pr
          \<and> act_PullReqID comment = pr_ID pr \<longrightarrow>
        (\<exists>m. getCommentCheckEditAccess c st session pr commentID = (Inl (BadRequest m []), st')
              \<and> class_of (BadRequest m []) = Validation)
        \<and> (act_Kind comment \<noteq> PullReqActivityKindSystem \<longrightarrow>
             getCommentCheckEditAccess c st session pr commentID =
               (Inl (BadRequest ''Only own comments may be updated.'' []), st')))
    \<and> activities (snd (getCommentCheckEditAccess controller s session pr commentID))
        = activities s
    \<and> pullreqs (snd (getCommentCheckEditAccess controller s session pr commentID))
        = pullreqs s"
proof -
  have rows: "activities (snd (ActivityStore_Find s commentID)) = activities s
      \<and> pullreqs (snd (ActivityStore_Find s commentID)) = pullreqs s"
    by (simp add: ActivityStore_Find_def next_fault_def split: list.split option.split)
  have "snd (getCommentCheckEditAccess controller s session pr commentID) = s
      \<or> snd (getCommentCheckEditAccess controller s session pr commentID)
          = snd (ActivityStore_Find s commentID)"
    by (simp add: getCommentCheckEditAccess_def controller_def
             split: prod.split option.split)
  with rows have "activities (snd (getCommentCheckEditAccess controller s session pr commentID))
        = activities s
    \<and> pullreqs (snd (getCommentCheckEditAccess controller s session pr commentID))
        = pullreqs s"
    by auto
  moreover have "(\<exists>e. getCommentCheckEditAccess c st session pr commentID = (Inl e, st'))
    \<and> (act_Deleted comment = None \<and> act_RepoID comment = pr_TargetRepoID pr
          \<and> act_PullReqID comment = pr_ID pr \<longrightarrow>
        (\<exists>m. getCommentCheckEditAccess c st session pr commentID = (Inl (BadRequest m []), st')
              \<and> class_of (BadRequest m []) = Validation)
        \<and> (act_Kind comment \<noteq> PullReqActivityKindSystem \<longrightarrow>
             getCommentCheckEditAccess c st session pr commentID =
               (Inl (BadRequest ''Only own comments may be updated.'' []), st')))"
    using assms by (simp add: getCommentCheckEditAccess_def)
  ultimately show ?thesis by blast
qed

theorem getCommentCheckEditAccess_not_author_witness:
  "activityStore_Find controller store0 5 = ((Some comment5, None), store0)
   \<and> act_CreatedBy comment5 \<noteq> principal_ID (session_Principal session8)
   \<and> getCommentCheckEditAccess controller store0 session8 pr1 5 =
     (Inl (BadRequest ''Only own comments may be updated.'' []), store0)
   \<and> activities (snd (getCommentCheckEditAccess controller store0 session8 pr1 5))
       = [comment5, system6]"
  using getCommentCheckEditAccess_not_author
          [of 5 controller store0 comment5 store0 session8 pr1 store0]
  by (simp add: store_defs scenario_defs)

text \<open>
  Claim C8. A looked-up comment that is soft-deleted, or whose \<^verbatim>\<open>RepoID\<close> is not the
  pull request's \<^verbatim>\<open>TargetRepoID\<close>, or whose \<^verbatim>\<open>PullReqID\<close> is not the pull request's
  \<^verbatim>\<open>ID\<close>, yields \<^verbatim>\<open>store.ErrResourceNotFound\<close>, whatever its kind and its author
  are: the not-found check comes before the System-kind and authorship checks.
\<close>

theorem getCommentCheckEditAccess_not_found_first:
  assumes "0 < commentID"
    and "activityStore_Find c st commentID = ((Some comment, None), st')"
    and "act_Deleted comment \<noteq> None \<or> act_RepoID comment \<noteq> pr_TargetRepoID pr
         \<or> act_PullReqID comment \<noteq> pr_ID pr"
  shows "getCommentCheckEditAccess c st session pr commentID = (Inl ErrResourceNotFound, st')
    \<and> class_of ErrResourceNotFound = NotFound"
  using assms by (auto simp add: getCommentCheckEditAccess_def)

theorem getCommentCheckEditAccess_not_found_first_witness:
  "activityStore_Find controller
     (store0\<lparr>activities := [comment5, system6\<lparr>act_Deleted := Some 99\<rparr>]\<rparr>) 6 =
     ((Some (system6\<lparr>act_Deleted := Some 99\<rparr>), None),
      store0\<lparr>activities := [comment5, system6\<lparr>act_Deleted := Some 99\<rparr>]\<rparr>)
   \<and> getCommentCheckEditAccess controller
     (store0\<lparr>activities := [comment5, system6\<lparr>act_Deleted := Some 99\<rparr>]\<rparr>)
     session8 pr1 6 =
     (Inl ErrResourceNotFound, store0\<lparr>activities := [comment5, system6\<lparr>act_Deleted := Some 99\<rparr>]\<rparr>)
   \<and> activityStore_Find controller store0 6 = ((Some system6, None), store0)
   \<and> act_PullReqID system6 \<noteq> pr_ID (pr1\<lparr>pr_ID := 2\<rparr>)
   \<and> getCommentCheckEditAccess controller store0 session8 (pr1\<lparr>pr_ID := 2\<rparr>) 6 =
     (Inl ErrResourceNotFound, store0)
   \<and> act_Kind system6 = PullReqActivityKindSystem
   \<and> act_CreatedBy system6 \<noteq> principal_ID (session_Principal session8)"
  using getCommentCheckEditAccess_not_found_first
          [of 6 controller "store0\<lparr>activities := [comment5, system6\<lparr>act_Deleted := Some 99\<rparr>]\<rparr>"
              "system6\<lparr>act_Deleted := Some 99\<rparr>"
              "store0\<lparr>activities := [comment5, system6\<lparr>act_Deleted := Some 99\<rparr>]\<rparr>"
              pr1 session8]
        getCommentCheckEditAccess_not_found_first
          [of 6 controller store0 system6 store0 "pr1\<lparr>pr_ID := 2\<rparr>" session8]
  by (simp add: store_defs scenario_defs)

text \<open>
  Claim C9. For every implementation of the stores, also one that writes through the
  pointers it is handed: when the sequence bump succeeds, the caller's pull request
  (respectively parent) record is the record the store returned, whatever the bump left
  in it and whatever the row write returns, so also when the write fails; the row write
  is made in the state the bump left, with the caller's activity in which the helper
  has set \<^verbatim>\<open>Order\<close> (respectively \<^verbatim>\<open>Order\<close> and \<^verbatim>\<open>SubOrder\<close>) and nothing else;
  afterwards the caller's activity is that activity as \<^verbatim>\<open>Create\<close> left it, hence the
  caller's activity with only those fields set when \<^verbatim>\<open>Create\<close> leaves it alone. When
  the bump fails, the helper writes to neither object and makes no row write.
\<close>

theorem write_helpers_frame:
  "(pullreqStore_UpdateActivitySeq c st pr = ((Inr prUpd, pr0), st1) \<longrightarrow>
      writeActivity c st pr act =
        ((map_option (Errorf ''failed to create pull request activity: '')
            (fst (fst (activityStore_Create c st1 (act\<lparr>act_Order := pr_ActivitySeq prUpd\<rparr>)))),
          prUpd,
          snd (fst (activityStore_Create c st1 (act\<lparr>act_Order := pr_ActivitySeq prUpd\<rparr>)))),
         snd (activityStore_Create c st1 (act\<lparr>act_Order := pr_ActivitySeq prUpd\<rparr>)))
      \<and> (snd (fst (activityStore_Create c st1 (act\<lparr>act_Order := pr_ActivitySeq prUpd\<rparr>)))
            = act\<lparr>act_Order := pr_ActivitySeq prUpd\<rparr> \<longrightarrow>
          snd (snd (fst (writeActivity c st pr act)))
            = act\<lparr>act_Order := pr_ActivitySeq prUpd\<rparr>))
   \<and> (pullreqStore_UpdateActivitySeq c st pr = ((Inl e, pr0), st1) \<longrightarrow>
      writeActivity c st pr act =
        ((Some (Errorf ''failed to get pull request activity number: '' e), pr0, act), st1))
   \<and> (activityStore_UpdateReplySeq c st parent = ((Inr parentUpd, parent0), st1r) \<longrightarrow>
      writeReplyActivity c st parent reply =
        ((map_option (Errorf ''failed to create pull request activity: '')
            (fst (fst (activityStore_Create c st1r
                         (reply\<lparr>act_Order := act_Order parentUpd,
                                act_SubOrder := act_ReplySeq parentUpd\<rparr>)))),
          parentUpd,
          snd (fst (activityStore_Create c st1r
                      (reply\<lparr>act_Order := act_Order parentUpd,
                             act_SubOrder := act_ReplySeq parentUpd\<rparr>)))),
         snd (activityStore_Create c st1r
                (reply\<lparr>act_Order := act_Order parentUpd,
                       act_SubOrder := act_ReplySeq parentUpd\<rparr>)))
      \<and> (snd (fst (activityStore_Create c st1r
                      (reply\<lparr>act_Order := act_Order parentUpd,
                             act_SubOrder := act_ReplySeq parentUpd\<rparr>)))
            = reply\<lparr>act_Order := act_Order parentUpd, act_SubOrder := act_ReplySeq parentUpd\<rparr>
          \<longrightarrow>
          snd (snd (fst (writeReplyActivity c st parent reply)))
            = reply\<lparr>act_Order := act_Order parentUpd, act_SubOrder := act_ReplySeq parentUpd\<rparr>))
   \<and> (activityStore_UpdateReplySeq c st parent = ((Inl e, parent0), st1r) \<longrightarrow>
      writeReplyActivity c st parent reply =
        ((Some (Errorf ''failed to get pull request activity number: '' e), parent0, reply),
         st1r))"
  by (simp add: writeActivity_def writeReplyActivity_def Let_def
           split: prod.splits option.splits)

theorem write_helpers_frame_witness:
  "pullreqStore_UpdateActivitySeq controller
       (store0\<lparr>faults := [None, Some (OtherError ''disk full'')]\<rparr>) pr1 =
     ((Inr (pr1\<lparr>pr_ActivitySeq := 3, pr_Version := 1\<rparr>), pr1),
      store0\<lparr>pullreqs := [pr1\<lparr>pr_ActivitySeq := 3, pr_Version := 1\<rparr>],
              faults := [Some (OtherError ''disk full'')]\<rparr>)
   \<and> writeActivity controller
        (store0\<lparr>faults := [None, Some (OtherError ''disk full'')]\<rparr>) pr1 noteA =
       ((Some (Errorf ''failed to create pull request activity: '' (OtherError ''disk full'')),
         pr1\<lparr>pr_ActivitySeq := 3, pr_Version := 1\<rparr>, noteA\<lparr>act_Order := 3\<rparr>),
        store0\<lparr>pullreqs := [pr1\<lparr>pr_ActivitySeq := 3, pr_Version := 1\<rparr>]\<rparr>)
   \<and> activityStore_UpdateReplySeq controller
       (store0\<lparr>faults := [None, Some (OtherError ''disk full'')]\<rparr>) comment5 =
     ((Inr (comment5\<lparr>act_ReplySeq := 1, act_Version := 1\<rparr>), comment5),
      store0\<lparr>activities := [comment5\<lparr>act_ReplySeq := 1, act_Version := 1\<rparr>, system6],
              faults := [Some (OtherError ''disk full'')]\<rparr>)
   \<and> writeReplyActivity controller
        (store0\<lparr>faults := [None, Some (OtherError ''disk full'')]\<rparr>) comment5 replyA =
       ((Some (Errorf ''failed to create pull request activity: '' (OtherError ''disk full'')),
         comment5\<lparr>act_ReplySeq := 1, act_Version := 1\<rparr>,
         replyA\<lparr>act_Order := 1, act_SubOrder := 1\<rparr>),
        store0\<lparr>activities := [comment5\<lparr>act_ReplySeq := 1, act_Version := 1\<rparr>, system6]\<rparr>)
   \<and> next_ID store0 = 7
   \<and> writeActivity controller_ID store0 pr1 noteA =
       ((None, pr1\<lparr>pr_ActivitySeq := 3, pr_Version := 1\<rparr>,
         noteA\<lparr>act_Order := 3, act_ID := 7\<rparr>),
        store0\<lparr>pullreqs := [pr1\<lparr>pr_ActivitySeq := 3, pr_Version := 1\<rparr>],
                activities := [comment5, system6, noteA\<lparr>act_Order := 3, act_ID := 7\<rparr>]\<rparr>)
   \<and> writeReplyActivity controller_ID store0 comment5 replyA =
       ((None, comment5\<lparr>act_ReplySeq := 1, act_Version := 1\<rparr>,
         replyA\<lparr>act_Order := 1, act_SubOrder := 1, act_ID := 7\<rparr>),
        store0\<lparr>activities := [comment5\<lparr>act_ReplySeq := 1, act_Version := 1\<rparr>, system6,
                                replyA\<lparr>act_Order := 1, act_SubOrder := 1, act_ID := 7\<rparr>]\<rparr>)
   \<and> writeActivity controller (store0\<lparr>faults := [Some ErrConflict]\<rparr>) pr1 noteA =
       ((Some (Errorf ''failed to get pull request activity number: '' ErrConflict), pr1, noteA),
        store0)
   \<and> writeReplyActivity controller (store0\<lparr>faults := [Some ErrConflict]\<rparr>) comment5 replyA =
       ((Some (Errorf ''failed to get pull request activity number: '' ErrConflict),
         comment5, replyA), store0)"
  using write_helpers_frame
          [where c = controller
             and st = "store0\<lparr>faults := [None, Some (OtherError ''disk full'')]\<rparr>"
             and pr = pr1 and prUpd = "pr1\<lparr>pr_ActivitySeq := 3, pr_Version := 1\<rparr>"
             and ?pr0.0 = pr1
             and ?st1.0 = "store0\<lparr>pullreqs := [pr1\<lparr>pr_ActivitySeq := 3, pr_Version := 1\<rparr>],
                                  faults := [Some (OtherError ''disk full'')]\<rparr>"
             and act = noteA and e = ErrConflict and parent = comment5
             and parentUpd = "comment5\<lparr>act_ReplySeq := 1, act_Version := 1\<rparr>"
             and ?parent0.0 = comment5
             and st1r = "store0\<lparr>activities :=
                                  [comment5\<lparr>act_ReplySeq := 1, act_Version := 1\<rparr>, system6],
                                faults := [Some (OtherError ''disk full'')]\<rparr>"
             and reply = replyA]
        write_helpers_frame
          [where c = controller_ID and st = store0
             and pr = pr1 and prUpd = "pr1\<lparr>pr_ActivitySeq := 3, pr_Version := 1\<rparr>"
             and ?pr0.0 = pr1
             and ?st1.0 = "store0\<lparr>pullreqs := [pr1\<lparr>pr_ActivitySeq := 3, pr_Version := 1\<rparr>]\<rparr>"
             and act = noteA and e = ErrConflict and parent = comment5
             and parentUpd = "comment5\<lparr>act_ReplySeq := 1, act_Version := 1\<rparr>"
             and ?parent0.0 = comment5
             and st1r = "store0\<lparr>activities :=
                                  [comment5\<lparr>act_ReplySeq := 1, act_Version := 1\<rparr>, system6]\<rparr>"
             and reply = replyA]
        write_helpers_frame
          [where c = controller and st = "store0\<lparr>faults := [Some ErrConflict]\<rparr>"
             and pr = pr1 and prUpd = pr1 and ?pr0.0 = pr1 and ?st1.0 = store0
             and act = noteA and e = ErrConflict and parent = comment5
             and parentUpd = comment5 and ?parent0.0 = comment5 and st1r = store0
             and reply = replyA]
  by (simp add: eval_defs store_defs scenario_defs controller_ID_def
        ActivityStore_Create_ID_def next_ID_def)

text \<open>
  Claim C10. When the store serves the query and at least one open pull request matches
  the tuple, the number in the payload of the error is the least Number among the open
  pull requests that match.
\<close>

theorem checkIfAlreadyExists_smallest_number:
  assumes "fst (next_fault st) = None"
    and "open_duplicates st targetRepoID sourceRepoID targetBranch sourceBranch \<noteq> []"
  shows "fst (checkIfAlreadyExists controller st targetRepoID sourceRepoID targetBranch
                sourceBranch) =
     Some (BadRequest ''a pull request for this target and source branch already exists''
             [(''type'', AnyString ''pr already exists''),
              (''number'',
               AnyInt (Min (pr_Number `
                  set (open_duplicates st targetRepoID sourceRepoID targetBranch
                         sourceBranch))))])"
  using checkIfAlreadyExists_served[OF assms(1), of targetRepoID sourceRepoID targetBranch
          sourceBranch]
        hd_sort_key_Min(1)[OF assms(2), of pr_Number] assms(2)
  by simp

theorem checkIfAlreadyExists_smallest_number_witness:
  "fst (next_fault store_dups) = None
   \<and> map pr_Number (open_duplicates store_dups 10 10 ''main'' ''feature'') = [4, 2]
   \<and> fst (checkIfAlreadyExists controller store_dups 10 10 ''main'' ''feature'') =
       Some (BadRequest ''a pull request for this target and source branch already exists''
               [(''type'', AnyString ''pr already exists''), (''number'', AnyInt 2)])"
  using checkIfAlreadyExists_smallest_number [of store_dups 10 10 "''main''" "''feature''"]
  by (simp add: open_duplicates_def store_dups_def store_defs scenario_defs)

end
